theory Spec2Isabelle
  imports Main
begin

section \<open>JavaScript values\<close>

text \<open>
  The build command of \<^verbatim>\<open>packages/preset-umi/src/commands/build.ts\<close> works on untyped
  JavaScript values: the options object it composes is handed to plugin handlers, which may
  return anything. Values are modelled by one datatype. An object is the list of its property
  definitions in the order they were made; a later definition of a key replaces an earlier
  one, so reading a key takes its last definition, and \<^verbatim>\<open>{...a, ...b}\<close> is the definitions
  of \<open>a\<close> followed by those of \<open>b\<close>.
  Function values are not HOL functions but names: the five functions the command creates
  and hands out (\<^verbatim>\<open>chainWebpack\<close>, \<^verbatim>\<open>modifyWebpackConfig\<close>, \<^verbatim>\<open>modifyViteConfig\<close>,
  \<^verbatim>\<open>onBuildComplete\<close> and the imported \<^verbatim>\<open>getMarkup\<close>) are the constructors of
  \<open>closure\<close>, interpreted by \<open>apply_closure\<close> below. A bundler backend (a module object
  with a \<^verbatim>\<open>build\<close> method) is \<open>VBundler name\<close>. Values are immutable, as the spec's data
  model has it (options are passed by value and replaced by a dispatch's result).
  Numbers are integers; no number of the command is fractional.
\<close>

datatype closure = ChainWebpack | ModifyWebpackConfig | ModifyViteConfig | OnBuildComplete | GetMarkup

datatype val =
    VUndefined
  | VNull
  | VBool bool
  | VNum int
  | VStr string
  | VArr "val list"
  | VObj "(string \<times> val) list"
  | VClosure closure
  | VBundler string

text \<open>
  A thrown value. \<open>TypeError\<close> is what the JavaScript runtime (or a library checking its
  argument) throws; \<open>Thrown\<close> is any value thrown by a plugin handler or a collaborator.
\<close>

datatype error = TypeError string | Thrown val

text \<open>JavaScript's truthiness, \<^verbatim>\<open>a || b\<close> and \<^verbatim>\<open>!!a\<close>.\<close>

fun truthy :: "val \<Rightarrow> bool" where
  "truthy VUndefined = False"
| "truthy VNull = False"
| "truthy (VBool b) = b"
| "truthy (VNum n) = (n \<noteq> 0)"
| "truthy (VStr s) = (s \<noteq> [])"
| "truthy (VArr xs) = True"
| "truthy (VObj kvs) = True"
| "truthy (VClosure c) = True"
| "truthy (VBundler b) = True"

definition js_or :: "val \<Rightarrow> val \<Rightarrow> val" where
  "js_or a b = (if truthy a then a else b)"

text \<open>
  Reading a property \<^verbatim>\<open>v.k\<close>: a TypeError on \<^verbatim>\<open>undefined\<close> and \<^verbatim>\<open>null\<close>, the value
  stored under the key for an object, \<^verbatim>\<open>undefined\<close> otherwise (the command reads only
  named keys such as \<^verbatim>\<open>cwd\<close> or \<^verbatim>\<open>config\<close>, which no primitive, array or function has).
\<close>

definition lookup :: "(string \<times> val) list \<Rightarrow> string \<Rightarrow> val" where
  "lookup kvs k = (case map_of (rev kvs) k of None \<Rightarrow> VUndefined | Some v \<Rightarrow> v)"

fun get_prop :: "val \<Rightarrow> string \<Rightarrow> error + val" where
  "get_prop VUndefined k = Inl (TypeError (''Cannot read properties of undefined: '' @ k))"
| "get_prop VNull k = Inl (TypeError (''Cannot read properties of null: '' @ k))"
| "get_prop (VObj kvs) k = Inr (lookup kvs k)"
| "get_prop v k = Inr VUndefined"

text \<open>
  The properties an object spread \<^verbatim>\<open>{...v}\<close> copies: those of an object; the indices of
  an array or a string; none of \<^verbatim>\<open>undefined\<close>, \<^verbatim>\<open>null\<close>, a boolean, a number or a
  function.
\<close>

fun digits_of :: "nat \<Rightarrow> string" where
  "digits_of n =
     (if n < 10 then [char_of (48 + n)] else digits_of (n div 10) @ [char_of (48 + n mod 10)])"

fun own_props :: "val \<Rightarrow> (string \<times> val) list" where
  "own_props (VObj kvs) = kvs"
| "own_props (VArr xs) = zip (map digits_of [0..<length xs]) xs"
| "own_props (VStr s) = zip (map digits_of [0..<length s]) (map (\<lambda>c. VStr [c]) s)"
| "own_props v = []"

text \<open>\<^verbatim>\<open>k in v\<close> for an object \<open>v\<close>: the key is defined, whatever its value.\<close>

fun has_prop :: "val \<Rightarrow> string \<Rightarrow> bool" where
  "has_prop (VObj kvs) k = (map_of kvs k \<noteq> None)"
| "has_prop v k = False"

text \<open>
  \<^verbatim>\<open>xs.concat(v)\<close> on an array \<open>xs\<close>: an array argument is appended element by element,
  any other value is appended as one element.
\<close>

fun concat_arr :: "val list \<Rightarrow> val \<Rightarrow> val list" where
  "concat_arr xs (VArr ys) = xs @ ys"
| "concat_arr xs v = xs @ [v]"

section \<open>Semantic versions\<close>

text \<open>
  Modelled from the spec: \<^verbatim>\<open>semver.gte\<close>, which the command imports from
  \<^verbatim>\<open>@umijs/utils\<close> (the npm package \<^verbatim>\<open>semver\<close>; its code is not in the source file). The
  spec fixes "a pure function of one semantic version input", compared with release
  \<^verbatim>\<open>17.0.0\<close> by \<^verbatim>\<open>>=\<close>. The model follows the package: a version string is trimmed and
  matched against the full grammar (an optional \<^verbatim>\<open>v\<close>, three numeric identifiers without
  leading zeros, an optional \<^verbatim>\<open>-prerelease\<close> and an optional \<^verbatim>\<open>+build\<close>); a string that
  does not match makes the constructor throw a TypeError. Versions are compared by
  \<^verbatim>\<open>compareMain\<close>, then \<^verbatim>\<open>comparePre\<close>. An all-digit prerelease identifier is a number
  (the package keeps identifiers of \<open>2\<^sup>5\<^sup>3\<close> and more as strings; no comparison with a
  release depends on them).
\<close>

datatype ident = NumId nat | StrId string

record SemVer =
  major :: nat
  minor :: nat
  patch :: nat
  prerelease :: "ident list"

definition MAX_LENGTH :: nat where
  "MAX_LENGTH = 256"

definition MAX_SAFE_INTEGER :: nat where
  "MAX_SAFE_INTEGER = 9007199254740991"

definition is_digit :: "char \<Rightarrow> bool" where
  "is_digit c = (48 \<le> (of_char c :: nat) \<and> (of_char c :: nat) \<le> 57)"

definition is_ident_char :: "char \<Rightarrow> bool" where
  "is_ident_char c =
     (is_digit c \<or> (65 \<le> (of_char c :: nat) \<and> (of_char c :: nat) \<le> 90)
                \<or> (97 \<le> (of_char c :: nat) \<and> (of_char c :: nat) \<le> 122) \<or> c = CHR ''-'')"

definition is_space :: "char \<Rightarrow> bool" where
  "is_space c = ((of_char c :: nat) = 32 \<or> (9 \<le> (of_char c :: nat) \<and> (of_char c :: nat) \<le> 13))"

definition trim :: "string \<Rightarrow> string" where
  "trim s = rev (dropWhile is_space (rev (dropWhile is_space s)))"

fun split_on :: "char \<Rightarrow> string \<Rightarrow> string list" where
  "split_on d [] = [[]]"
| "split_on d (c # cs) =
     (if c = d then [] # split_on d cs
      else (case split_on d cs of [] \<Rightarrow> [[c]] | w # ws \<Rightarrow> (c # w) # ws))"

definition nat_of_digits :: "string \<Rightarrow> nat" where
  "nat_of_digits s = foldl (\<lambda>n c. 10 * n + ((of_char c :: nat) - 48)) 0 s"

text \<open>\<^verbatim>\<open>0|[1-9]\d*\<close>\<close>

fun numeric_identifier :: "string \<Rightarrow> bool" where
  "numeric_identifier [] = False"
| "numeric_identifier (c # cs) = (list_all is_digit (c # cs) \<and> (c \<noteq> CHR ''0'' \<or> cs = []))"

text \<open>A numeric identifier, or \<^verbatim>\<open>\d*[a-zA-Z-][a-zA-Z0-9-]*\<close>.\<close>

definition prerelease_identifier :: "string \<Rightarrow> bool" where
  "prerelease_identifier s =
     (s \<noteq> [] \<and> list_all is_ident_char s \<and> (if list_all is_digit s then numeric_identifier s else True))"

text \<open>\<^verbatim>\<open>[a-zA-Z0-9-]+\<close>\<close>

definition build_identifier :: "string \<Rightarrow> bool" where
  "build_identifier s = (s \<noteq> [] \<and> list_all is_ident_char s)"

definition to_ident :: "string \<Rightarrow> ident" where
  "to_ident s = (if list_all is_digit s then NumId (nat_of_digits s) else StrId s)"

definition strip_v :: "string \<Rightarrow> string" where
  "strip_v t = (case t of [] \<Rightarrow> [] | c # cs \<Rightarrow> if c = CHR ''v'' then cs else c # cs)"

definition before :: "char \<Rightarrow> string \<Rightarrow> string" where
  "before d s = takeWhile (\<lambda>c. c \<noteq> d) s"

definition after :: "char \<Rightarrow> string \<Rightarrow> string option" where
  "after d s = (case dropWhile (\<lambda>c. c \<noteq> d) s of [] \<Rightarrow> None | c # cs \<Rightarrow> Some cs)"

definition identifiers :: "string option \<Rightarrow> string list" where
  "identifiers part = (case part of None \<Rightarrow> [] | Some s \<Rightarrow> split_on CHR ''.'' s)"

definition mk_SemVer :: "string \<Rightarrow> string \<Rightarrow> string \<Rightarrow> string list \<Rightarrow> error + SemVer" where
  "mk_SemVer a b c pre_ids =
     (if MAX_SAFE_INTEGER < nat_of_digits a then Inl (TypeError ''Invalid major version'')
      else if MAX_SAFE_INTEGER < nat_of_digits b then Inl (TypeError ''Invalid minor version'')
      else if MAX_SAFE_INTEGER < nat_of_digits c then Inl (TypeError ''Invalid patch version'')
      else Inr \<lparr>major = nat_of_digits a, minor = nat_of_digits b, patch = nat_of_digits c,
                prerelease = map to_ident pre_ids\<rparr>)"

text \<open>
  The match of the full grammar on the trimmed string \<open>t\<close> without its \<^verbatim>\<open>v\<close>: the build
  part starts at the first \<^verbatim>\<open>+\<close>, the prerelease part at the first \<^verbatim>\<open>-\<close> before it.
\<close>

definition match_full :: "string \<Rightarrow> string \<Rightarrow> error + SemVer" where
  "match_full version t =
     (case split_on CHR ''.'' (before CHR ''-'' (before CHR ''+'' t)) of
        [a, b, c] \<Rightarrow>
          if numeric_identifier a \<and> numeric_identifier b \<and> numeric_identifier c
             \<and> list_all prerelease_identifier (identifiers (after CHR ''-'' (before CHR ''+'' t)))
             \<and> list_all build_identifier (identifiers (after CHR ''+'' t))
          then mk_SemVer a b c (identifiers (after CHR ''-'' (before CHR ''+'' t)))
          else Inl (TypeError (''Invalid Version: '' @ version))
      | _ \<Rightarrow> Inl (TypeError (''Invalid Version: '' @ version)))"

definition parse_SemVer :: "string \<Rightarrow> error + SemVer" where
  "parse_SemVer version =
     (if MAX_LENGTH < length version
      then Inl (TypeError ''version is longer than 256 characters'')
      else match_full version (strip_v (trim version)))"

fun str_less :: "string \<Rightarrow> string \<Rightarrow> bool" where
  "str_less [] [] = False"
| "str_less [] (b # bs) = True"
| "str_less (a # as) [] = False"
| "str_less (a # as) (b # bs) =
     ((of_char a :: nat) < of_char b \<or> ((of_char a :: nat) = of_char b \<and> str_less as bs))"

definition compare_num :: "nat \<Rightarrow> nat \<Rightarrow> int" where
  "compare_num a b = (if a = b then 0 else if a < b then - 1 else 1)"

fun compareIdentifiers :: "ident \<Rightarrow> ident \<Rightarrow> int" where
  "compareIdentifiers (NumId a) (NumId b) = compare_num a b"
| "compareIdentifiers (NumId a) (StrId b) = - 1"
| "compareIdentifiers (StrId a) (NumId b) = 1"
| "compareIdentifiers (StrId a) (StrId b) = (if a = b then 0 else if str_less a b then - 1 else 1)"

definition compareMain :: "SemVer \<Rightarrow> SemVer \<Rightarrow> int" where
  "compareMain a b =
     (if compare_num (major a) (major b) \<noteq> 0 then compare_num (major a) (major b)
      else if compare_num (minor a) (minor b) \<noteq> 0 then compare_num (minor a) (minor b)
      else compare_num (patch a) (patch b))"

fun comparePre_loop :: "ident list \<Rightarrow> ident list \<Rightarrow> int" where
  "comparePre_loop [] [] = 0"
| "comparePre_loop (a # as) [] = 1"
| "comparePre_loop [] (b # bs) = - 1"
| "comparePre_loop (a # as) (b # bs) =
     (if a = b then comparePre_loop as bs else compareIdentifiers a b)"

definition comparePre :: "SemVer \<Rightarrow> SemVer \<Rightarrow> int" where
  "comparePre a b =
     (if prerelease a \<noteq> [] \<and> prerelease b = [] then - 1
      else if prerelease a = [] \<and> prerelease b \<noteq> [] then 1
      else if prerelease a = [] \<and> prerelease b = [] then 0
      else comparePre_loop (prerelease a) (prerelease b))"

definition semver_compare :: "SemVer \<Rightarrow> SemVer \<Rightarrow> int" where
  "semver_compare a b = (if compareMain a b \<noteq> 0 then compareMain a b else comparePre a b)"

definition semver_gte :: "string \<Rightarrow> string \<Rightarrow> error + bool" where
  "semver_gte a b =
     (case parse_SemVer a of
        Inl e \<Rightarrow> Inl e
      | Inr x \<Rightarrow> (case parse_SemVer b of Inl e \<Rightarrow> Inl e | Inr y \<Rightarrow> Inr (0 \<le> semver_compare x y)))"

section \<open>Effects\<close>

text \<open>
  An asynchronous or effectful call is a function from the state before the call to a
  result and the state after it. A thrown value (a rejected promise) is \<open>Inl\<close>; the
  state at the throw is kept, nothing is undone. \<open>bindM\<close> is \<^verbatim>\<open>await\<close> followed by the
  rest of the function body: after a throw the rest does not run. The source has no
  \<^verbatim>\<open>try\<close>, \<^verbatim>\<open>catch\<close> or \<^verbatim>\<open>finally\<close>, so no other combinator is needed.
\<close>

type_synonym ('s, 'a) io = "'s \<Rightarrow> (error + 'a) \<times> 's"

definition lift :: "error + 'a \<Rightarrow> ('s, 'a) io" where
  "lift r = (\<lambda>s. (r, s))"

definition return :: "'a \<Rightarrow> ('s, 'a) io" where
  "return x = lift (Inr x)"

definition bindM :: "('s, 'a) io \<Rightarrow> ('a \<Rightarrow> ('s, 'b) io) \<Rightarrow> ('s, 'b) io" where
  "bindM m f = (\<lambda>s. case m s of (Inl e, s') \<Rightarrow> (Inl e, s') | (Inr x, s') \<Rightarrow> f x s')"

section \<open>The hook dispatcher\<close>

text \<open>
  Modelled from the spec: \<^verbatim>\<open>api.applyPlugins\<close> and the hook registry behind it (the
  dispatcher of \<^verbatim>\<open>@umijs/core\<close>; the source file only calls it). After the spec's sections
  3 and 4.2: a registry holds, per key, the handlers in registration order; MODIFY folds
  the handlers over the accumulator, starting from the initial value, each handler getting
  the accumulator and the shared arguments, and returns the initial value unchanged when
  no handler is registered; EVENT runs the handlers on the arguments and ignores what they
  return; COLLECT is MODIFY on a sequence; a failing handler aborts the dispatch at once.
  A call that names no mode gets the mode of the spec's stage list: EVENT for the
  \<^verbatim>\<open>on...\<close> keys and MODIFY for the \<^verbatim>\<open>modify...\<close> keys. An absent initial value or
  argument is \<^verbatim>\<open>undefined\<close>.

  A handler is a function of its argument list on the world \<open>'w\<close> outside the command
  (file system, plugin state); it may fail.
\<close>

datatype ApplicationMode = MODIFY | EVENT | COLLECT

type_synonym 'w handler = "val list \<Rightarrow> ('w, val) io"

record invocation =
  key :: string
  mode :: "ApplicationMode option"
  initialValue :: val
  args :: val

fun apply_modify :: "'w handler list \<Rightarrow> val \<Rightarrow> val \<Rightarrow> ('w, val) io" where
  "apply_modify [] acc a = return acc"
| "apply_modify (h # hs) acc a = bindM (h [acc, a]) (\<lambda>acc'. apply_modify hs acc' a)"

fun apply_event :: "'w handler list \<Rightarrow> val \<Rightarrow> ('w, val) io" where
  "apply_event [] a = return VUndefined"
| "apply_event (h # hs) a = bindM (h [a]) (\<lambda>_. apply_event hs a)"

definition starts_with :: "string \<Rightarrow> string \<Rightarrow> bool" where
  "starts_with p s = (take (length p) s = p)"

definition resolve_mode :: "invocation \<Rightarrow> ApplicationMode option" where
  "resolve_mode hi =
     (case mode hi of
        Some m \<Rightarrow> Some m
      | None \<Rightarrow>
          if starts_with ''on'' (key hi) then Some EVENT
          else if starts_with ''modify'' (key hi) then Some MODIFY
          else None)"

definition applyPlugins :: "(string \<Rightarrow> 'w handler list) \<Rightarrow> invocation \<Rightarrow> ('w, val) io" where
  "applyPlugins handlersFor hi =
     (case resolve_mode hi of
        None \<Rightarrow> lift (Inl (Thrown (VStr (''Invalid applyPlugins arguments, type must be supplied for key '' @ key hi))))
      | Some MODIFY \<Rightarrow> apply_modify (handlersFor (key hi)) (initialValue hi) (args hi)
      | Some COLLECT \<Rightarrow> apply_modify (handlersFor (key hi)) (initialValue hi) (args hi)
      | Some EVENT \<Rightarrow> apply_event (handlersFor (key hi)) (args hi))"

section \<open>The plugin API and the collaborators\<close>

text \<open>
  What the command reads of its \<^verbatim>\<open>api\<close> argument. \<open>appData_react_version\<close> is
  \<^verbatim>\<open>api.appData.react?.version\<close>: \<open>None\<close> when \<^verbatim>\<open>react\<close> or its version is absent.
\<close>

record 'w api =
  appData_umi_version :: string
  appData_pkg :: val
  appData_react_version :: "string option"
  appData_bundler :: val
  paths_absTmpPath :: string
  paths_absOutputPath :: string
  userConfig_outputPath :: val
  config :: "(string \<times> val) list"
  cwd :: string
  args_vite :: val
  hooks :: "string \<Rightarrow> 'w handler list"

text \<open>
  The functions the command imports and calls, as parameters: other modules of the
  package (\<^verbatim>\<open>getBabelOpts\<close>, \<^verbatim>\<open>getAssetsMap\<close>, \<^verbatim>\<open>getMarkupArgs\<close>, \<^verbatim>\<open>printMemoryUsage\<close>, the
  file-size reporter), the markup renderer, the bundler backends with the constant
  \<^verbatim>\<open>DEFAULT_OUTPUT_PATH\<close>, Node's \<^verbatim>\<open>path\<close> functions and the file system calls. Each
  effectful one works on the world \<open>'w\<close> and may fail. \<^verbatim>\<open>getBabelOpts\<close> and
  \<^verbatim>\<open>getMarkupArgs\<close> are called with \<^verbatim>\<open>{ api }\<close> only, so they take no argument here. A
  backend's \<^verbatim>\<open>build\<close> receives, besides the options, the means to call the function values
  found in them.
\<close>

record 'w env =
  rimraf_sync :: "string \<Rightarrow> ('w, unit) io"
  getBabelOpts :: "('w, val) io"
  path_join :: "string \<Rightarrow> string \<Rightarrow> string"
  path_resolve :: "string \<Rightarrow> string \<Rightarrow> string"
  path_dirname :: "string \<Rightarrow> string"
  bundler_build :: "string \<Rightarrow> (val \<Rightarrow> val list \<Rightarrow> ('w, val) io) \<Rightarrow> val \<Rightarrow> ('w, val) io"
  DEFAULT_OUTPUT_PATH :: string
  measureFileSizesBeforeBuild :: "string \<Rightarrow> ('w, val) io"
  printFileSizesAfterBuild :: "val \<Rightarrow> val \<Rightarrow> string \<Rightarrow> ('w, unit) io"
  getAssetsMap :: "val \<Rightarrow> val \<Rightarrow> ('w, val) io"
  getMarkupArgs :: "('w, val) io"
  getMarkup :: "val \<Rightarrow> ('w, val) io"
  mkdirpSync :: "string \<Rightarrow> ('w, unit) io"
  writeFileSync :: "string \<Rightarrow> val \<Rightarrow> ('w, unit) io"
  printMemoryUsage :: "('w, unit) io"

section \<open>The functions handed to the backend\<close>

definition chainWebpack :: "'w api \<Rightarrow> val \<Rightarrow> val \<Rightarrow> ('w, val) io" where
  "chainWebpack api memo a =
     bindM (applyPlugins (hooks api)
              \<lparr>key = ''chainWebpack'', mode = Some MODIFY, initialValue = memo, args = a\<rparr>)
       (\<lambda>_. return VUndefined)"

definition modifyWebpackConfig :: "'w api \<Rightarrow> val \<Rightarrow> val \<Rightarrow> ('w, val) io" where
  "modifyWebpackConfig api memo a =
     applyPlugins (hooks api)
       \<lparr>key = ''modifyWebpackConfig'', mode = None, initialValue = memo, args = a\<rparr>"

definition modifyViteConfig :: "'w api \<Rightarrow> val \<Rightarrow> val \<Rightarrow> ('w, val) io" where
  "modifyViteConfig api memo a =
     applyPlugins (hooks api)
       \<lparr>key = ''modifyViteConfig'', mode = None, initialValue = memo, args = a\<rparr>"

definition onBuildComplete :: "'w env \<Rightarrow> 'w api \<Rightarrow> val \<Rightarrow> ('w, val) io" where
  "onBuildComplete env api opts =
     bindM (printMemoryUsage env) (\<lambda>_.
     bindM (applyPlugins (hooks api)
              \<lparr>key = ''onBuildComplete'', mode = None, initialValue = VUndefined, args = opts\<rparr>)
       (\<lambda>_. return VUndefined))"

text \<open>The \<open>i\<close>-th argument of a call; a missing argument is \<^verbatim>\<open>undefined\<close>.\<close>

definition arg :: "val list \<Rightarrow> nat \<Rightarrow> val" where
  "arg argv i = (if i < length argv then argv ! i else VUndefined)"

fun apply_closure :: "'w env \<Rightarrow> 'w api \<Rightarrow> closure \<Rightarrow> val list \<Rightarrow> ('w, val) io" where
  "apply_closure env api ChainWebpack argv = chainWebpack api (arg argv 0) (arg argv 1)"
| "apply_closure env api ModifyWebpackConfig argv = modifyWebpackConfig api (arg argv 0) (arg argv 1)"
| "apply_closure env api ModifyViteConfig argv = modifyViteConfig api (arg argv 0) (arg argv 1)"
| "apply_closure env api OnBuildComplete argv = onBuildComplete env api (arg argv 0)"
| "apply_closure env api GetMarkup argv = getMarkup env (arg argv 0)"

fun call_value :: "'w env \<Rightarrow> 'w api \<Rightarrow> val \<Rightarrow> val list \<Rightarrow> ('w, val) io" where
  "call_value env api (VClosure c) argv = apply_closure env api c argv"
| "call_value env api v argv = lift (Inl (TypeError ''not a function''))"

text \<open>\<^verbatim>\<open>bundler.build(opts)\<close> on whatever value the dispatch returned as the bundler.\<close>

fun build_method :: "'w env \<Rightarrow> 'w api \<Rightarrow> val \<Rightarrow> val \<Rightarrow> ('w, val) io" where
  "build_method env api (VBundler name) opts = bundler_build env name (call_value env api) opts"
| "build_method env api (VObj kvs) opts = call_value env api (lookup kvs ''build'') [opts]"
| "build_method env api VUndefined opts = lift (get_prop VUndefined ''build'')"
| "build_method env api VNull opts = lift (get_prop VNull ''build'')"
| "build_method env api v opts = lift (Inl (TypeError ''bundler.build is not a function''))"

section \<open>The build command\<close>

text \<open>
  The state of a run is the log of the calls the body of the command has made, in the order
  it made them, and the world. The log is not part of the program: it records which
  collaborator was called with which arguments, so that order and number of the calls can
  be stated. A call is logged when it is made, whether it fails or not. Calls made by a
  handler or a backend (also through the functions handed to the backend) happen inside
  the world and are not logged.
\<close>

datatype event =
    LoggerInfo string
  | ConsoleLog
  | LoggerEvent string
  | RimrafSync string
  | ApplyPlugins invocation
  | CallGetBabelOpts
  | BundlerBuild val val
  | MeasureFileSizesBeforeBuild string
  | PrintFileSizesAfterBuild val val string
  | CallGetAssetsMap val val
  | CallGetMarkupArgs
  | CallGetMarkup val
  | MkdirpSync string
  | WriteFileSync string val

type_synonym 'w run = "event list \<times> 'w"

definition call :: "event \<Rightarrow> ('w, 'a) io \<Rightarrow> ('w run, 'a) io" where
  "call ev m = (\<lambda>(tr, w). case m w of (r, w') \<Rightarrow> (r, (tr @ [ev], w')))"

text \<open>
  The logger and the console print and do nothing else; the colours of \<^verbatim>\<open>chalk\<close> are
  left out of the messages.
\<close>

definition logger_info :: "string \<Rightarrow> ('w run, unit) io" where
  "logger_info msg = call (LoggerInfo msg) (return ())"

definition console_log :: "('w run, unit) io" where
  "console_log = call ConsoleLog (return ())"

definition logger_event :: "string \<Rightarrow> ('w run, unit) io" where
  "logger_event msg = call (LoggerEvent msg) (return ())"

definition dispatch :: "'w api \<Rightarrow> invocation \<Rightarrow> ('w run, val) io" where
  "dispatch api hi = call (ApplyPlugins hi) (applyPlugins (hooks api) hi)"

subsection \<open>Clear tmp, check package.json\<close>

text \<open>Lines 34 to 46.\<close>

definition pre_check :: "'w env \<Rightarrow> 'w api \<Rightarrow> ('w run, val) io" where
  "pre_check env api =
     bindM (logger_info (''Umi v'' @ appData_umi_version api)) (\<lambda>_.
     bindM (call (RimrafSync (paths_absTmpPath api)) (rimraf_sync env (paths_absTmpPath api))) (\<lambda>_.
     dispatch api
       \<lparr>key = ''onCheckPkgJSON'', mode = None, initialValue = VUndefined,
        args = VObj [(''origin'', VNull), (''current'', appData_pkg api)]\<rparr>))"

subsection \<open>Generate files\<close>

definition generate :: "'w api \<Rightarrow> (string \<times> val) list \<Rightarrow> ('w run, val) io" where
  "generate api opts =
     dispatch api
       \<lparr>key = ''onGenerateFiles'', mode = None, initialValue = VUndefined,
        args = VObj [(''files'', js_or (lookup opts ''files'') VNull),
                     (''isFirstTime'', lookup opts ''isFirstTime'')]\<rparr>"

subsection \<open>Build options\<close>

definition shouldUseAutomaticRuntime :: "string option \<Rightarrow> error + val" where
  "shouldUseAutomaticRuntime version =
     (case version of
        None \<Rightarrow> Inr VUndefined
      | Some v \<Rightarrow>
          if \<not> truthy (VStr v) then Inr (VStr v)
          else (case semver_gte v ''17.0.0'' of Inl e \<Rightarrow> Inl e | Inr b \<Rightarrow> Inr (VBool b)))"

text \<open>
  The object literal \<^verbatim>\<open>let opts = { ... }\<close>, from the destructured result of
  \<^verbatim>\<open>getBabelOpts\<close>, the entry and the value of \<^verbatim>\<open>shouldUseAutomaticRuntime\<close>.
\<close>

definition opts_literal :: "'w api \<Rightarrow> val \<Rightarrow> val \<Rightarrow> val \<Rightarrow> val \<Rightarrow> val \<Rightarrow> val \<Rightarrow> val \<Rightarrow> val" where
  "opts_literal api babelPreset beforeBabelPlugins beforeBabelPresets extraBabelPlugins
       extraBabelPresets entry automatic =
     VObj
       ([(''react'', VObj [(''runtime'', VStr (if truthy automatic then ''automatic'' else ''classic''))]),
         (''config'', VObj ([(''outputPath'', js_or (userConfig_outputPath api) (VStr ''dist''))]
                           @ config api)),
         (''cwd'', VStr (cwd api)),
         (''entry'', entry)]
        @ (if truthy (lookup (config api) ''vite'')
           then [(''modifyViteConfig'', VClosure ModifyViteConfig)]
           else [(''babelPreset'', babelPreset),
                 (''chainWebpack'', VClosure ChainWebpack),
                 (''modifyWebpackConfig'', VClosure ModifyWebpackConfig)])
        @ [(''beforeBabelPlugins'', beforeBabelPlugins),
           (''beforeBabelPresets'', beforeBabelPresets),
           (''extraBabelPlugins'', extraBabelPlugins),
           (''extraBabelPresets'', extraBabelPresets),
           (''onBuildComplete'', VClosure OnBuildComplete),
           (''clean'', VBool True),
           (''htmlFiles'', VArr [])])"

text \<open>Lines 64 to 131: from \<^verbatim>\<open>getBabelOpts\<close> to the literal.\<close>

definition build_options :: "'w env \<Rightarrow> 'w api \<Rightarrow> ('w run, val) io" where
  "build_options env api =
     bindM (call CallGetBabelOpts (getBabelOpts env)) (\<lambda>babel.
     bindM (lift (get_prop babel ''babelPreset'')) (\<lambda>babelPreset.
     bindM (lift (get_prop babel ''beforeBabelPlugins'')) (\<lambda>beforeBabelPlugins.
     bindM (lift (get_prop babel ''beforeBabelPresets'')) (\<lambda>beforeBabelPresets.
     bindM (lift (get_prop babel ''extraBabelPlugins'')) (\<lambda>extraBabelPlugins.
     bindM (lift (get_prop babel ''extraBabelPresets'')) (\<lambda>extraBabelPresets.
     bindM (dispatch api
              \<lparr>key = ''modifyEntry'', mode = None,
               initialValue = VObj [(''umi'', VStr (path_join env (paths_absTmpPath api) ''umi.ts''))],
               args = VUndefined\<rparr>) (\<lambda>entry.
     bindM (lift (shouldUseAutomaticRuntime (appData_react_version api))) (\<lambda>automatic.
     return (opts_literal api babelPreset beforeBabelPlugins beforeBabelPresets extraBabelPlugins
               extraBabelPresets entry automatic)))))))))"

subsection \<open>File sizes\<close>

text \<open>\<^verbatim>\<open>resolve(a, b)\<close> of Node's \<^verbatim>\<open>path\<close>: a TypeError unless both arguments are strings.\<close>

fun resolve :: "'w env \<Rightarrow> val \<Rightarrow> val \<Rightarrow> error + string" where
  "resolve env (VStr a) (VStr b) = Inr (path_resolve env a b)"
| "resolve env a b = Inl (TypeError ''The paths argument must be of type string'')"

text \<open>Lines 156 to 171, after \<^verbatim>\<open>bundler.build\<close> has returned \<open>stats\<close>.\<close>

definition measure_sizes :: "'w env \<Rightarrow> 'w api \<Rightarrow> val \<Rightarrow> val \<Rightarrow> ('w run, unit) io" where
  "measure_sizes env api opts stats =
     (if \<not> truthy (lookup (config api) ''vite'') \<and> \<not> truthy (lookup (config api) ''mako'')
      then
        bindM (lift (get_prop opts ''cwd'')) (\<lambda>opts_cwd.
        bindM (lift (get_prop opts ''config'')) (\<lambda>opts_config.
        bindM (lift (get_prop opts_config ''outputPath'')) (\<lambda>outputPath.
        bindM (lift (resolve env opts_cwd (js_or outputPath (VStr (DEFAULT_OUTPUT_PATH env))))) (\<lambda>absOutputPath.
        bindM (call (MeasureFileSizesBeforeBuild absOutputPath)
                 (measureFileSizesBeforeBuild env absOutputPath)) (\<lambda>previousFileSizes.
        bindM console_log (\<lambda>_.
        bindM (logger_info (''File sizes after gzip:'' @ [CHR 0x0A])) (\<lambda>_.
        call (PrintFileSizesAfterBuild stats previousFileSizes absOutputPath)
          (printFileSizesAfterBuild env stats previousFileSizes absOutputPath))))))))
      else return ())"

subsection \<open>HTML\<close>

text \<open>
  \<^verbatim>\<open>(assetsMap[name] || []).map((src) => ({ src }))\<close>, and the array the conditional
  expression around it yields.
\<close>

definition mapped :: "val \<Rightarrow> string \<Rightarrow> error + val list" where
  "mapped assetsMap name =
     (case get_prop assetsMap name of
        Inl e \<Rightarrow> Inl e
      | Inr urls \<Rightarrow>
          (case js_or urls (VArr []) of
             VArr xs \<Rightarrow> Inr (map (\<lambda>src. VObj [(''src'', src)]) xs)
           | _ \<Rightarrow> Inl (TypeError ''map is not a function'')))"

definition assets :: "'w api \<Rightarrow> val \<Rightarrow> string \<Rightarrow> error + val list" where
  "assets api assetsMap name =
     (if truthy (lookup (config api) ''vite'') then Inr [] else mapped assetsMap name)"

text \<open>
  A method call \<^verbatim>\<open>r.m(xs)\<close> reads \<^verbatim>\<open>r.m\<close> before it evaluates its arguments: on
  \<^verbatim>\<open>undefined\<close> and \<^verbatim>\<open>null\<close> that is a TypeError, on any other receiver the call goes on.
\<close>

fun receiver :: "val \<Rightarrow> string \<Rightarrow> error + val" where
  "receiver VUndefined m = get_prop VUndefined m"
| "receiver VNull m = get_prop VNull m"
| "receiver r m = Inr r"

text \<open>
  \<^verbatim>\<open>styles.concat(xs)\<close> for the value \<open>styles\<close> read from the markup arguments, typed as an
  array by \<^verbatim>\<open>getMarkupArgs\<close>; on any other value the call is a TypeError here (a string,
  which is outside that type, has a \<^verbatim>\<open>concat\<close> of its own).
\<close>

fun concat_method :: "val \<Rightarrow> val \<Rightarrow> error + val" where
  "concat_method (VArr xs) v = Inr (VArr (concat_arr xs v))"
| "concat_method VUndefined v = get_prop VUndefined ''concat''"
| "concat_method VNull v = get_prop VNull ''concat''"
| "concat_method r v = Inl (TypeError ''concat is not a function'')"

definition bind_pure :: "error + 'a \<Rightarrow> ('a \<Rightarrow> error + 'b) \<Rightarrow> error + 'b" where
  "bind_pure r f = (case r of Inl e \<Rightarrow> Inl e | Inr x \<Rightarrow> f x)"

text \<open>
  The object literal \<^verbatim>\<open>finalMarkUpArgs\<close>, its parts evaluated in the order of the source;
  \<open>a\<close> is the result of \<^verbatim>\<open>getMarkupArgs\<close>; \<^verbatim>\<open>vite\<close> is \<^verbatim>\<open>api.args.vite\<close>.
\<close>

definition finalMarkUpArgs :: "'w api \<Rightarrow> val \<Rightarrow> val \<Rightarrow> val \<Rightarrow> error + val" where
  "finalMarkUpArgs api opts assetsMap a =
     bind_pure (get_prop a ''styles'') (\<lambda>a_styles.
     bind_pure (receiver a_styles ''concat'') (\<lambda>_.
     bind_pure (assets api assetsMap ''umi.css'') (\<lambda>css.
     bind_pure (concat_method a_styles (VArr css)) (\<lambda>styles.
     bind_pure (assets api assetsMap ''umi.js'') (\<lambda>js.
     bind_pure (get_prop a ''scripts'') (\<lambda>a_scripts.
     bind_pure (get_prop opts ''config'') (\<lambda>opts_config.
     bind_pure (get_prop opts_config ''esm'') (\<lambda>esm.
       Inr (VObj (own_props a
                  @ [(''styles'', styles),
                     (''scripts'', VArr (concat_arr js a_scripts)),
                     (''esmScript'', js_or (VBool (truthy esm)) (args_vite api)),
                     (''path'', VStr ''/'')]))))))))))"

text \<open>One round of \<^verbatim>\<open>htmlFiles.forEach(({ path, content }) => { ... })\<close>.\<close>

definition write_html_file :: "'w env \<Rightarrow> 'w api \<Rightarrow> val \<Rightarrow> ('w run, unit) io" where
  "write_html_file env api file =
     bindM (lift (get_prop file ''path'')) (\<lambda>path.
     bindM (lift (get_prop file ''content'')) (\<lambda>content.
     bindM (lift (resolve env (VStr (paths_absOutputPath api)) path)) (\<lambda>absPath.
     bindM (call (MkdirpSync (path_dirname env absPath)) (mkdirpSync env (path_dirname env absPath))) (\<lambda>_.
     bindM (call (WriteFileSync absPath content) (writeFileSync env absPath content)) (\<lambda>_.
     logger_event (''Build '' @ (case path of VStr p \<Rightarrow> p | _ \<Rightarrow> [])))))))"

fun write_html_files :: "'w env \<Rightarrow> 'w api \<Rightarrow> val list \<Rightarrow> ('w run, unit) io" where
  "write_html_files env api [] = return ()"
| "write_html_files env api (file # files) =
     bindM (write_html_file env api file) (\<lambda>_. write_html_files env api files)"

fun forEach_write :: "'w env \<Rightarrow> 'w api \<Rightarrow> val \<Rightarrow> ('w run, unit) io" where
  "forEach_write env api (VArr files) = write_html_files env api files"
| "forEach_write env api VUndefined = lift (map_sum id (\<lambda>_. ()) (get_prop VUndefined ''forEach''))"
| "forEach_write env api VNull = lift (map_sum id (\<lambda>_. ()) (get_prop VNull ''forEach''))"
| "forEach_write env api v = lift (Inl (TypeError ''htmlFiles.forEach is not a function''))"

text \<open>Lines 176 to 222; the result is \<^verbatim>\<open>htmlFiles\<close>.\<close>

definition generate_html :: "'w env \<Rightarrow> 'w api \<Rightarrow> val \<Rightarrow> val \<Rightarrow> ('w run, val) io" where
  "generate_html env api opts stats =
     (if \<not> truthy (lookup (config api) ''mpa'')
      then
        bindM (if truthy (lookup (config api) ''vite'') then return (VObj [])
               else call (CallGetAssetsMap stats (lookup (config api) ''publicPath''))
                      (getAssetsMap env stats (lookup (config api) ''publicPath''))) (\<lambda>assetsMap.
        bindM (call CallGetMarkupArgs (getMarkupArgs env)) (\<lambda>a.
        bindM (lift (finalMarkUpArgs api opts assetsMap a)) (\<lambda>markupArgs.
        bindM (call (CallGetMarkup markupArgs) (getMarkup env markupArgs)) (\<lambda>content.
        bindM (dispatch api
                 \<lparr>key = ''modifyExportHTMLFiles'', mode = None,
                  initialValue = VArr [VObj [(''path'', VStr ''index.html''), (''content'', content)]],
                  args = VObj [(''markupArgs'', markupArgs), (''getMarkup'', VClosure GetMarkup)]\<rparr>) (\<lambda>htmlFiles.
        bindM (forEach_write env api htmlFiles) (\<lambda>_.
        return htmlFiles))))))
      else return (VArr []))"

subsection \<open>Build\<close>

text \<open>
  Lines 62 to 171: the options, the three dispatches around them, the call of the backend
  and the file sizes. The result is the pair of \<^verbatim>\<open>opts\<close> and \<^verbatim>\<open>stats\<close>, which the rest
  of the command reads.
\<close>

definition build :: "'w env \<Rightarrow> 'w api \<Rightarrow> ('w run, val \<times> val) io" where
  "build env api =
     bindM (build_options env api) (\<lambda>opts0.
     bindM (dispatch api
              \<lparr>key = ''onBeforeCompiler'', mode = None, initialValue = VUndefined,
               args = VObj [(''compiler'', appData_bundler api), (''opts'', opts0)]\<rparr>) (\<lambda>_.
     bindM (dispatch api
              \<lparr>key = ''modifyUniBundlerOpts'', mode = None, initialValue = opts0,
               args = VObj [(''bundler'', appData_bundler api)]\<rparr>) (\<lambda>opts.
     bindM (dispatch api
              \<lparr>key = ''modifyUniBundler'', mode = None, initialValue = VUndefined,
               args = VObj [(''bundler'', appData_bundler api), (''opts'', opts)]\<rparr>) (\<lambda>bundler.
     bindM (call (BundlerBuild bundler opts) (build_method env api bundler opts)) (\<lambda>stats.
     bindM (measure_sizes env api opts stats) (\<lambda>_.
     return (opts, stats)))))))"

subsection \<open>The command\<close>

text \<open>The body of \<^verbatim>\<open>fn\<close>, lines 33 to 234.\<close>

definition fn :: "'w env \<Rightarrow> 'w api \<Rightarrow> ('w run, unit) io" where
  "fn env api =
     bindM (pre_check env api) (\<lambda>_.
     bindM (generate api [(''isFirstTime'', VBool True)]) (\<lambda>_.
     bindM (build env api) (\<lambda>(opts, stats).
     bindM (generate_html env api opts stats) (\<lambda>htmlFiles.
     bindM (dispatch api
              \<lparr>key = ''onBuildHtmlComplete'', mode = None, initialValue = VUndefined,
               args = VObj (own_props opts @ [(''htmlFiles'', htmlFiles)])\<rparr>) (\<lambda>_.
     return ())))))"

section \<open>Reading the claims\<close>

text \<open>
  The calls a command adds to the log when started in state \<open>s\<close>, given its outcome, and
  the kinds of call the claims speak of.
\<close>

definition new_events :: "'w run \<Rightarrow> (error + 'a) \<times> 'w run \<Rightarrow> event list" where
  "new_events s out = drop (length (fst s)) (fst (snd out))"

fun is_write :: "event \<Rightarrow> bool" where
  "is_write (WriteFileSync p c) = True"
| "is_write e = False"

fun is_mkdirp :: "event \<Rightarrow> bool" where
  "is_mkdirp (MkdirpSync p) = True"
| "is_mkdirp e = False"

fun is_report :: "event \<Rightarrow> bool" where
  "is_report (PrintFileSizesAfterBuild stats prev p) = True"
| "is_report e = False"

fun is_measure :: "event \<Rightarrow> bool" where
  "is_measure (MeasureFileSizesBeforeBuild p) = True"
| "is_measure e = False"

fun is_build :: "event \<Rightarrow> bool" where
  "is_build (BundlerBuild b opts) = True"
| "is_build e = False"

fun is_dispatch :: "string \<Rightarrow> event \<Rightarrow> bool" where
  "is_dispatch k (ApplyPlugins hi) = (key hi = k)"
| "is_dispatch k e = False"

text \<open>The function a logged call was made to; a dispatch with its key.\<close>

fun label :: "event \<Rightarrow> string" where
  "label (LoggerInfo msg) = ''logger.info''"
| "label ConsoleLog = ''console.log''"
| "label (LoggerEvent msg) = ''logger.event''"
| "label (RimrafSync p) = ''rimraf.sync''"
| "label (ApplyPlugins hi) = ''applyPlugins '' @ key hi"
| "label CallGetBabelOpts = ''getBabelOpts''"
| "label (BundlerBuild b opts) = ''bundler.build''"
| "label (MeasureFileSizesBeforeBuild p) = ''measureFileSizesBeforeBuild''"
| "label (PrintFileSizesAfterBuild stats prev p) = ''printFileSizesAfterBuild''"
| "label (CallGetAssetsMap stats publicPath) = ''getAssetsMap''"
| "label CallGetMarkupArgs = ''getMarkupArgs''"
| "label (CallGetMarkup a) = ''getMarkup''"
| "label (MkdirpSync p) = ''mkdirpSync''"
| "label (WriteFileSync p c) = ''writeFileSync''"

text \<open>
  An environment is reliable when every collaborator call succeeds and returns a value of
  its declared type: objects from \<^verbatim>\<open>getBabelOpts\<close> and \<^verbatim>\<open>getMarkupArgs\<close>, the latter with an
  array of styles, and from \<^verbatim>\<open>getAssetsMap\<close> a map whose \<^verbatim>\<open>umi.css\<close> and \<^verbatim>\<open>umi.js\<close>
  entries are arrays or absent. A value is an optional string when it is a string or
  \<^verbatim>\<open>undefined\<close>.
\<close>

definition reliable :: "'w env \<Rightarrow> bool" where
  "reliable env =
     ((\<forall>p w. \<exists>w'. rimraf_sync env p w = (Inr (), w'))
    \<and> (\<forall>w. \<exists>kvs w'. getBabelOpts env w = (Inr (VObj kvs), w'))
    \<and> (\<forall>b f opts w. \<exists>stats w'. bundler_build env b f opts w = (Inr stats, w'))
    \<and> (\<forall>p w. \<exists>prev w'. measureFileSizesBeforeBuild env p w = (Inr prev, w'))
    \<and> (\<forall>stats prev p w. \<exists>w'. printFileSizesAfterBuild env stats prev p w = (Inr (), w'))
    \<and> (\<forall>stats publicPath w. \<exists>m css js w'. getAssetsMap env stats publicPath w = (Inr m, w')
           \<and> mapped m ''umi.css'' = Inr css \<and> mapped m ''umi.js'' = Inr js)
    \<and> (\<forall>w. \<exists>kvs styles w'. getMarkupArgs env w = (Inr (VObj kvs), w')
           \<and> lookup kvs ''styles'' = VArr styles)
    \<and> (\<forall>a w. \<exists>content w'. getMarkup env a w = (Inr content, w'))
    \<and> (\<forall>p w. \<exists>w'. mkdirpSync env p w = (Inr (), w'))
    \<and> (\<forall>p c w. \<exists>w'. writeFileSync env p c w = (Inr (), w')))"

fun optional_string :: "val \<Rightarrow> bool" where
  "optional_string VUndefined = True"
| "optional_string (VStr s) = True"
| "optional_string v = False"

text \<open>
  A command emits \<open>P\<close> when, from every state, it only appends to the log, and only calls
  that satisfy \<open>P\<close>.
\<close>

definition emits :: "(event \<Rightarrow> bool) \<Rightarrow> ('w run, 'a) io \<Rightarrow> bool" where
  "emits P m = (\<forall>s. \<exists>evs. fst (snd (m s)) = fst s @ evs \<and> list_all P evs)"

text \<open>
  A command fails emitting \<open>P\<close> when, from every state, it fails, having only appended
  to the log, and only calls that satisfy \<open>P\<close>.
\<close>

definition fails_emitting :: "(event \<Rightarrow> bool) \<Rightarrow> ('w run, 'a) io \<Rightarrow> bool" where
  "fails_emitting P m =
     (\<forall>s. \<exists>e evs w'. m s = (Inl e, (fst s @ evs, w')) \<and> list_all P evs)"

text \<open>
  A command is build-first when, from every state, it only appends to the log, and no
  file-size measurement among the calls it makes before its first call of a backend.
\<close>

definition build_first :: "('w run, 'a) io \<Rightarrow> bool" where
  "build_first m = (\<forall>s. \<exists>evs. fst (snd (m s)) = fst s @ evs
       \<and> filter is_measure (takeWhile (\<lambda>e. \<not> is_build e) evs) = [])"

text \<open>
  What a logged call does to the world: the collaborator the command has called, with the
  arguments logged, its result dropped. The logger and the console leave the world as it
  is.
\<close>

definition discard :: "('w, 'a) io \<Rightarrow> ('w, unit) io" where
  "discard m = (\<lambda>w. case m w of (r, w') \<Rightarrow> (map_sum id (\<lambda>_. ()) r, w'))"

fun perform :: "'w env \<Rightarrow> 'w api \<Rightarrow> event \<Rightarrow> ('w, unit) io" where
  "perform env api (LoggerInfo msg) = return ()"
| "perform env api ConsoleLog = return ()"
| "perform env api (LoggerEvent msg) = return ()"
| "perform env api (RimrafSync p) = rimraf_sync env p"
| "perform env api (ApplyPlugins hi) = discard (applyPlugins (hooks api) hi)"
| "perform env api CallGetBabelOpts = discard (getBabelOpts env)"
| "perform env api (BundlerBuild b opts) = discard (build_method env api b opts)"
| "perform env api (MeasureFileSizesBeforeBuild p) = discard (measureFileSizesBeforeBuild env p)"
| "perform env api (PrintFileSizesAfterBuild stats prev p) = printFileSizesAfterBuild env stats prev p"
| "perform env api (CallGetAssetsMap stats publicPath) = discard (getAssetsMap env stats publicPath)"
| "perform env api CallGetMarkupArgs = discard (getMarkupArgs env)"
| "perform env api (CallGetMarkup a) = discard (getMarkup env a)"
| "perform env api (MkdirpSync p) = mkdirpSync env p"
| "perform env api (WriteFileSync p c) = writeFileSync env p c"

text \<open>
  The world after the logged calls \<open>evs\<close> are made in order from the world \<open>w\<close>, each on
  the world the one before has left; \<open>None\<close> when one of them fails.
\<close>

fun replay :: "'w env \<Rightarrow> 'w api \<Rightarrow> event list \<Rightarrow> 'w \<Rightarrow> 'w option" where
  "replay env api [] w = Some w"
| "replay env api (ev # evs) w =
     (case perform env api ev w of
        (Inl e, w') \<Rightarrow> None
      | (Inr u, w') \<Rightarrow> replay env api evs w')"

text \<open>
  An error is the command's own when it is a TypeError, which is what the expressions of
  the command raise (reading a property of \<^verbatim>\<open>undefined\<close>, calling what is not a function,
  a path that is not a string, a version that does not parse).
\<close>

definition own_error :: "error + 'a \<Rightarrow> bool" where
  "own_error r = (case r of Inl e \<Rightarrow> \<exists>msg. e = TypeError msg | Inr x \<Rightarrow> True)"

text \<open>
  A command stops at failure when, from every state, what it appends to the log is what it
  has done to the world, and a failure ends it. When it returns normally, every call logged
  has returned normally and the world is the one these calls leave, made in order. When it
  fails with \<open>e\<close>, either every call logged has returned normally, the world is the one
  they leave and \<open>e\<close> is the command's own; or all calls but the last have returned
  normally and the last has failed with \<open>e\<close>, leaving the world the command leaves.
\<close>

definition stops_at_failure :: "'w env \<Rightarrow> 'w api \<Rightarrow> ('w run, 'a) io \<Rightarrow> bool" where
  "stops_at_failure env api m =
     (\<forall>tr w. case m (tr, w) of
        (Inr x, (tr', w')) \<Rightarrow> \<exists>evs. tr' = tr @ evs \<and> replay env api evs w = Some w'
      | (Inl e, (tr', w')) \<Rightarrow>
          \<exists>evs. tr' = tr @ evs
            \<and> (replay env api evs w = Some w' \<and> (\<exists>msg. e = TypeError msg)
               \<or> (\<exists>pre ev w1. evs = pre @ [ev] \<and> replay env api pre w = Some w1
                     \<and> perform env api ev w1 = (Inl e, w'))))"

text \<open>
  A call is quiet when it creates no directory, writes no file and dispatches neither
  \<^verbatim>\<open>onBuildHtmlComplete\<close> nor \<^verbatim>\<open>modifyExportHTMLFiles\<close>. A command is gated by the export
  dispatch when, from every state, the calls it appends to the log are quiet calls followed
  by calls of which only the first may dispatch \<^verbatim>\<open>modifyExportHTMLFiles\<close>.
\<close>

abbreviation (input) "quiet \<equiv> (\<lambda>e. \<not> is_mkdirp e \<and> \<not> is_write e \<and> \<not> is_dispatch ''onBuildHtmlComplete'' e
                       \<and> \<not> is_dispatch ''modifyExportHTMLFiles'' e)"

definition export_gate :: "('w run, 'a) io \<Rightarrow> bool" where
  "export_gate m =
     (\<forall>s. \<exists>a b. fst (snd (m s)) = fst s @ a @ b
        \<and> list_all (\<lambda>e. \<not> is_mkdirp e \<and> \<not> is_write e \<and> \<not> is_dispatch ''onBuildHtmlComplete'' e
                       \<and> \<not> is_dispatch ''modifyExportHTMLFiles'' e) a
        \<and> list_all (\<lambda>e. \<not> is_dispatch ''modifyExportHTMLFiles'' e) (tl b))"

text \<open>
  The spec's words for the comparison of a version with a release \<open>M.m.p\<close>: the version
  is at least the release when its triple of numbers is greater, or equal with no
  prerelease tag (a prerelease of a release precedes that release).
\<close>

definition release_gte :: "SemVer \<Rightarrow> nat \<Rightarrow> nat \<Rightarrow> nat \<Rightarrow> bool" where
  "release_gte v M m p =
     (M < major v \<or> (major v = M \<and> (m < minor v \<or> (minor v = m \<and> (p < patch v \<or> (patch v = p \<and> prerelease v = []))))))"

text \<open>\<^verbatim>\<open>opts.react.runtime\<close>\<close>

definition react_runtime :: "val \<Rightarrow> error + val" where
  "react_runtime opts = bind_pure (get_prop opts ''react'') (\<lambda>react. get_prop react ''runtime'')"

section \<open>A concrete run\<close>

text \<open>
  An environment in which every collaborator succeeds, on a world that is the list of the
  files written (the backend writes its bundle, the size measurement returns the number of
  files it finds), and an API object for an application with react 17.1.0, an empty
  configuration and no handler registered under any key.
\<close>

type_synonym disk = "(string \<times> val) list"

definition demo_env :: "disk env" where
  "demo_env =
     \<lparr>rimraf_sync = (\<lambda>p. return ()),
      getBabelOpts = return (VObj [(''babelPreset'', VStr ''umi-preset'')]),
      path_join = (\<lambda>a b. a @ ''/'' @ b),
      path_resolve = (\<lambda>a b. a @ ''/'' @ b),
      path_dirname = (\<lambda>p. rev (drop 1 (dropWhile (\<lambda>c. c \<noteq> CHR ''/'') (rev p)))),
      bundler_build = (\<lambda>name f opts w.
         (Inr (VObj [(''bundler'', VStr name)]), w @ [(''/app/dist/umi.js'', VStr ''bundle'')])),
      DEFAULT_OUTPUT_PATH = ''dist'',
      measureFileSizesBeforeBuild = (\<lambda>p w. (Inr (VNum (int (length w))), w)),
      printFileSizesAfterBuild = (\<lambda>stats prev p. return ()),
      getAssetsMap = (\<lambda>stats publicPath.
         return (VObj [(''umi.js'', VArr [VStr ''/umi.js'']), (''umi.css'', VArr [VStr ''/umi.css''])])),
      getMarkupArgs = return (VObj [(''styles'', VArr [VStr ''b.css'']), (''scripts'', VArr [VStr ''b.js''])]),
      getMarkup = (\<lambda>a. return (VStr ''<html>'')),
      mkdirpSync = (\<lambda>p. return ()),
      writeFileSync = (\<lambda>p c w. (Inr (), w @ [(p, c)])),
      printMemoryUsage = return ()\<rparr>"

definition demo_api :: "disk api" where
  "demo_api =
     \<lparr>appData_umi_version = ''4.0.0'',
      appData_pkg = VObj [(''name'', VStr ''app'')],
      appData_react_version = Some ''17.1.0'',
      appData_bundler = VStr ''webpack'',
      paths_absTmpPath = ''/app/src/.umi-production'',
      paths_absOutputPath = ''/app/dist'',
      userConfig_outputPath = VUndefined,
      config = [],
      cwd = ''/app'',
      args_vite = VUndefined,
      hooks = (\<lambda>k. [])\<rparr>"

text \<open>
  The same application with one plugin, whose \<^verbatim>\<open>modifyUniBundler\<close> handler returns the
  webpack backend; a handler that throws, and the application with it registered under
  one more key.
\<close>

definition webpack_api :: "disk api" where
  "webpack_api =
     demo_api\<lparr>hooks := (\<lambda>k. if k = ''modifyUniBundler'' then [\<lambda>argv. return (VBundler ''webpack'')]
                              else [])\<rparr>"

definition throwing :: "string \<Rightarrow> disk handler" where
  "throwing msg = (\<lambda>argv. lift (Inl (Thrown (VStr msg))))"

definition failing_api :: "string \<Rightarrow> disk api" where
  "failing_api k =
     demo_api\<lparr>hooks := (\<lambda>k'. if k' = k then [throwing (''thrown in '' @ k)]
                               else if k' = ''modifyUniBundler'' then [\<lambda>argv. return (VBundler ''webpack'')]
                               else [])\<rparr>"

text \<open>The environment of the concrete run with a disk that is full: every write fails.\<close>

definition full_disk_env :: "disk env" where
  "full_disk_env = demo_env\<lparr>writeFileSync := (\<lambda>p c. lift (Inl (Thrown (VStr ''ENOSPC''))))\<rparr>"

text \<open>A handler that appends its name to a string accumulator, and a registry of two such
  handlers under each of the keys of the functions handed to the backend.\<close>

definition append_name :: "string \<Rightarrow> disk handler" where
  "append_name n = (\<lambda>argv. return (case arg argv 0 of VStr s \<Rightarrow> VStr (s @ n) | v \<Rightarrow> v))"

definition marking_api :: "disk api" where
  "marking_api = demo_api\<lparr>hooks := (\<lambda>k. [append_name ''-first'', append_name ''-second''])\<rparr>"

section \<open>Properties\<close>

lemmas semver_defs = parse_SemVer_def match_full_def mk_SemVer_def identifiers_def before_def after_def
  strip_v_def trim_def MAX_LENGTH_def MAX_SAFE_INTEGER_def is_space_def is_digit_def is_ident_char_def
  nat_of_digits_def prerelease_identifier_def build_identifier_def to_ident_def

lemmas compare_defs = semver_compare_def compareMain_def comparePre_def compare_num_def

lemmas io_defs = bindM_def return_def lift_def call_def logger_info_def console_log_def
  logger_event_def dispatch_def

lemma parse_17_0_0:
  "parse_SemVer ''17.0.0'' = Inr \<lparr>major = 17, minor = 0, patch = 0, prerelease = []\<rparr>"
  by (simp add: semver_defs)

lemma parse_17_1_0:
  "parse_SemVer ''17.1.0'' = Inr \<lparr>major = 17, minor = 1, patch = 0, prerelease = []\<rparr>"
  by (simp add: semver_defs)

text \<open>The package's comparison with a release agrees with the spec's words.\<close>

lemma compare_release:
  "(0 \<le> semver_compare v \<lparr>major = M, minor = m, patch = p, prerelease = []\<rparr>) = release_gte v M m p"
  by (auto simp: compare_defs release_gte_def)

lemma gte_17:
  "semver_gte v ''17.0.0'' =
     (case parse_SemVer v of Inl e \<Rightarrow> Inl e | Inr sv \<Rightarrow> Inr (release_gte sv 17 0 0))"
  by (simp add: semver_gte_def parse_17_0_0 compare_release split: sum.splits)

lemmas run_defs = fn_def build_def pre_check_def generate_def build_options_def measure_sizes_def generate_html_def
  write_html_file_def finalMarkUpArgs_def assets_def mapped_def bind_pure_def
  io_defs applyPlugins_def resolve_mode_def
  starts_with_def shouldUseAutomaticRuntime_def opts_literal_def js_or_def lookup_def

subsection \<open>The log of a run\<close>

lemma emitsE:
  assumes "emits P m"
  obtains evs where "fst (snd (m s)) = fst s @ evs" and "list_all P evs"
  using assms unfolding emits_def by blast

lemma emits_new: "emits P m \<Longrightarrow> list_all P (new_events s (m s))"
  by (erule emitsE [of P m s]) (simp add: new_events_def)

lemma emits_grows: "emits P m \<Longrightarrow> fst (snd (m s)) = fst s @ new_events s (m s)"
  by (erule emitsE [of P m s]) (simp add: new_events_def)

lemma emits_mono: "emits P m \<Longrightarrow> (\<And>e. P e \<Longrightarrow> Q e) \<Longrightarrow> emits Q m"
  unfolding emits_def list_all_iff by blast

lemma emits_lift: "emits P (lift r)"
  by (simp add: emits_def lift_def)

lemma emits_return: "emits P (return x)"
  by (simp add: return_def emits_lift)

lemma emits_call: "P ev \<Longrightarrow> emits P (call ev m)"
  by (auto simp: emits_def call_def split: prod.splits)

lemma emits_logger_info: "P (LoggerInfo msg) \<Longrightarrow> emits P (logger_info msg)"
  by (simp add: logger_info_def emits_call)

lemma emits_console_log: "P ConsoleLog \<Longrightarrow> emits P console_log"
  by (simp add: console_log_def emits_call)

lemma emits_logger_event: "P (LoggerEvent msg) \<Longrightarrow> emits P (logger_event msg)"
  by (simp add: logger_event_def emits_call)

lemma emits_dispatch: "P (ApplyPlugins hi) \<Longrightarrow> emits P (dispatch api hi)"
  by (simp add: dispatch_def emits_call)

lemma emits_bind:
  assumes "emits P m" and "\<And>x. emits P (f x)"
  shows "emits P (bindM m f)"
  unfolding emits_def
proof
  fix s
  obtain r s1 where ms: "m s = (r, s1)" by (cases "m s")
  obtain evs1 where e1: "fst s1 = fst s @ evs1" "list_all P evs1"
    using emitsE [OF assms(1), of s] ms by (metis snd_conv)
  show "\<exists>evs. fst (snd (bindM m f s)) = fst s @ evs \<and> list_all P evs"
  proof (cases r)
    case (Inl e)
    then show ?thesis using ms e1 by (simp add: bindM_def)
  next
    case (Inr x)
    obtain evs2 where e2: "fst (snd (f x s1)) = fst s1 @ evs2" "list_all P evs2"
      using emitsE [OF assms(2)] by blast
    show ?thesis using Inr ms e1 e2 by (simp add: bindM_def)
  qed
qed

lemma emits_if: "emits P m \<Longrightarrow> emits P n \<Longrightarrow> emits P (if b then m else n)"
  by simp

lemma emits_case_prod: "(\<And>a b. emits P (f a b)) \<Longrightarrow> emits P (case x of (a, b) \<Rightarrow> f a b)"
  by (cases x) simp

lemma emits_write_html_file:
  assumes "\<And>p. P (MkdirpSync p)" "\<And>p c. P (WriteFileSync p c)" "\<And>msg. P (LoggerEvent msg)"
  shows "emits P (write_html_file env api file)"
  unfolding write_html_file_def
  by (intro emits_bind emits_lift emits_call emits_logger_event assms)

lemma emits_write_html_files:
  assumes "\<And>p. P (MkdirpSync p)" "\<And>p c. P (WriteFileSync p c)" "\<And>msg. P (LoggerEvent msg)"
  shows "emits P (write_html_files env api files)"
  by (induction files) (auto intro!: emits_bind emits_return emits_write_html_file assms)

lemma emits_forEach_write:
  assumes "\<And>p. P (MkdirpSync p)" "\<And>p c. P (WriteFileSync p c)" "\<And>msg. P (LoggerEvent msg)"
  shows "emits P (forEach_write env api v)"
  by (cases v) (auto intro!: emits_lift emits_write_html_files assms)

lemmas emits_intros = emits_bind emits_lift emits_return emits_call emits_logger_info
  emits_console_log emits_logger_event emits_dispatch
  emits_if emits_case_prod emits_forEach_write

lemma new_events_bind:
  assumes "emits P m" and "\<And>x. emits Q (f x)"
  shows "new_events s (bindM m f s) =
     (case m s of (Inl e, s1) \<Rightarrow> new_events s (m s)
                | (Inr x, s1) \<Rightarrow> new_events s (m s) @ new_events s1 (f x s1))"
proof -
  obtain r s1 where ms: "m s = (r, s1)" by (cases "m s")
  have g: "fst s1 = fst s @ new_events s (m s)"
    using emits_grows [OF assms(1), of s] ms by simp
  show ?thesis
  proof (cases r)
    case (Inl e)
    then show ?thesis using ms by (simp add: bindM_def new_events_def)
  next
    case (Inr x)
    have "fst (snd (f x s1)) = fst s1 @ new_events s1 (f x s1)"
      using emits_grows [OF assms(2)] .
    then have "fst (snd (f x s1)) = fst s @ new_events s (m s) @ new_events s1 (f x s1)"
      using g by simp
    then have "new_events s (f x s1) = new_events s (m s) @ new_events s1 (f x s1)"
      by (simp add: new_events_def [of s "f x s1"])
    then show ?thesis using Inr ms by (simp add: bindM_def new_events_def)
  qed
qed

lemma filter_emits:
  assumes "emits P m" and "\<And>e. P e \<Longrightarrow> \<not> Q e"
  shows "filter Q (new_events s (m s)) = []"
  using emits_new [OF assms(1), of s] assms(2) by (auto simp: list_all_iff filter_empty_conv)

lemma new_events_call: "new_events s (call ev m s) = [ev]"
  by (cases s) (simp add: new_events_def call_def split: prod.splits)

lemma bindM_assoc: "bindM (bindM m f) g = bindM m (\<lambda>x. bindM (f x) g)"
  by (auto simp: bindM_def fun_eq_iff split: prod.splits sum.splits)

text \<open>The command as one sequence of awaited calls.\<close>

lemma fn_flat:
  "fn env api =
     bindM (pre_check env api) (\<lambda>_.
     bindM (generate api [(''isFirstTime'', VBool True)]) (\<lambda>_.
     bindM (build_options env api) (\<lambda>opts0.
     bindM (dispatch api
              \<lparr>key = ''onBeforeCompiler'', mode = None, initialValue = VUndefined,
               args = VObj [(''compiler'', appData_bundler api), (''opts'', opts0)]\<rparr>) (\<lambda>_.
     bindM (dispatch api
              \<lparr>key = ''modifyUniBundlerOpts'', mode = None, initialValue = opts0,
               args = VObj [(''bundler'', appData_bundler api)]\<rparr>) (\<lambda>opts.
     bindM (dispatch api
              \<lparr>key = ''modifyUniBundler'', mode = None, initialValue = VUndefined,
               args = VObj [(''bundler'', appData_bundler api), (''opts'', opts)]\<rparr>) (\<lambda>bundler.
     bindM (call (BundlerBuild bundler opts) (build_method env api bundler opts)) (\<lambda>stats.
     bindM (measure_sizes env api opts stats) (\<lambda>_.
     bindM (generate_html env api opts stats) (\<lambda>htmlFiles.
     bindM (dispatch api
              \<lparr>key = ''onBuildHtmlComplete'', mode = None, initialValue = VUndefined,
               args = VObj (own_props opts @ [(''htmlFiles'', htmlFiles)])\<rparr>) (\<lambda>_.
     return ()))))))))))"
  by (simp add: fn_def build_def bindM_assoc) (simp add: bindM_def return_def lift_def)

lemmas demo_defs = demo_env_def demo_api_def webpack_api_def failing_api_def throwing_def

lemmas eval_defs = run_defs new_events_def gte_17 parse_17_1_0 release_gte_def

subsection \<open>Runs stop at the first failure\<close>

lemma map_sum_unit: "map_sum id (\<lambda>_. ()) (r :: error + unit) = r"
  by (cases r) simp_all

lemma discard_unit: "discard (m :: ('w, unit) io) = m"
  by (auto simp: discard_def fun_eq_iff map_sum_unit split: prod.splits)

lemma replay_append:
  "replay env api (xs @ ys) w =
     (case replay env api xs w of None \<Rightarrow> None | Some w1 \<Rightarrow> replay env api ys w1)"
  by (induction xs arbitrary: w) (auto split: prod.splits sum.splits)

lemma stops_lift: "own_error r \<Longrightarrow> stops_at_failure env api (lift r)"
  by (auto simp: stops_at_failure_def lift_def own_error_def split: sum.splits)

lemma stops_return: "stops_at_failure env api (return x)"
  by (simp add: return_def stops_lift own_error_def)

lemma stops_call:
  assumes "discard m = perform env api ev"
  shows "stops_at_failure env api (call ev m)"
  unfolding stops_at_failure_def
proof (intro allI)
  fix tr w
  obtain r w' where mw: "m w = (r, w')" by (cases "m w")
  have p: "perform env api ev w = (map_sum id (\<lambda>_. ()) r, w')"
    using assms [symmetric] mw by (simp add: discard_def)
  show "case call ev m (tr, w) of
        (Inr x, (tr', w')) \<Rightarrow> \<exists>evs. tr' = tr @ evs \<and> replay env api evs w = Some w'
      | (Inl e, (tr', w')) \<Rightarrow>
          \<exists>evs. tr' = tr @ evs
            \<and> (replay env api evs w = Some w' \<and> (\<exists>msg. e = TypeError msg)
               \<or> (\<exists>pre ev w1. evs = pre @ [ev] \<and> replay env api pre w = Some w1
                     \<and> perform env api ev w1 = (Inl e, w')))"
  proof (cases r)
    case (Inl e)
    have "replay env api [] w = Some w \<and> perform env api ev w = (Inl e, w')"
      using p Inl by simp
    then show ?thesis using mw Inl by (simp add: call_def)
  next
    case (Inr x)
    then show ?thesis using mw p by (simp add: call_def)
  qed
qed

lemma stops_bind:
  assumes "stops_at_failure env api m" and "\<And>x. stops_at_failure env api (f x)"
  shows "stops_at_failure env api (bindM m f)"
  unfolding stops_at_failure_def
proof (intro allI)
  fix tr w
  obtain r tr1 w1 where ms: "m (tr, w) = (r, (tr1, w1))" by (cases "m (tr, w)") auto
  show "case bindM m f (tr, w) of
        (Inr x, (tr', w')) \<Rightarrow> \<exists>evs. tr' = tr @ evs \<and> replay env api evs w = Some w'
      | (Inl e, (tr', w')) \<Rightarrow>
          \<exists>evs. tr' = tr @ evs
            \<and> (replay env api evs w = Some w' \<and> (\<exists>msg. e = TypeError msg)
               \<or> (\<exists>pre ev w1. evs = pre @ [ev] \<and> replay env api pre w = Some w1
                     \<and> perform env api ev w1 = (Inl e, w')))"
  proof (cases r)
    case (Inl e)
    then show ?thesis
      using assms(1) [unfolded stops_at_failure_def, rule_format, of tr w] ms
      by (simp add: bindM_def)
  next
    case (Inr x)
    obtain evs1 where e1: "tr1 = tr @ evs1" "replay env api evs1 w = Some w1"
      using assms(1) [unfolded stops_at_failure_def, rule_format, of tr w] ms Inr by auto
    obtain r2 tr2 w2 where fs: "f x (tr1, w1) = (r2, (tr2, w2))" by (cases "f x (tr1, w1)") auto
    have b: "bindM m f (tr, w) = (r2, (tr2, w2))"
      using ms Inr fs by (simp add: bindM_def)
    show ?thesis
    proof (cases r2)
      case (Inr y)
      then obtain evs2 where "tr2 = tr1 @ evs2" "replay env api evs2 w1 = Some w2"
        using assms(2) [of x, unfolded stops_at_failure_def, rule_format, of tr1 w1] fs by auto
      then have "tr2 = tr @ (evs1 @ evs2) \<and> replay env api (evs1 @ evs2) w = Some w2"
        using e1 by (simp add: replay_append)
      then show ?thesis using b Inr by (simp del: append_assoc; blast?)
    next
      case (Inl e)
      then obtain evs2 where e2: "tr2 = tr1 @ evs2"
        and d: "replay env api evs2 w1 = Some w2 \<and> (\<exists>msg. e = TypeError msg)
               \<or> (\<exists>pre ev w3. evs2 = pre @ [ev] \<and> replay env api pre w1 = Some w3
                     \<and> perform env api ev w3 = (Inl e, w2))"
        using assms(2) [of x, unfolded stops_at_failure_def, rule_format, of tr1 w1] fs by auto
      have t: "tr2 = tr @ (evs1 @ evs2)" using e1 e2 by simp
      from d have "replay env api (evs1 @ evs2) w = Some w2 \<and> (\<exists>msg. e = TypeError msg)
               \<or> (\<exists>pre ev w3. evs1 @ evs2 = pre @ [ev] \<and> replay env api pre w = Some w3
                     \<and> perform env api ev w3 = (Inl e, w2))"
      proof
        assume "replay env api evs2 w1 = Some w2 \<and> (\<exists>msg. e = TypeError msg)"
        then show ?thesis using e1 by (simp add: replay_append)
      next
        assume "\<exists>pre ev w3. evs2 = pre @ [ev] \<and> replay env api pre w1 = Some w3
                     \<and> perform env api ev w3 = (Inl e, w2)"
        then obtain pre ev w3 where "evs2 = pre @ [ev]" "replay env api pre w1 = Some w3"
          "perform env api ev w3 = (Inl e, w2)" by blast
        then have "evs1 @ evs2 = (evs1 @ pre) @ [ev] \<and> replay env api (evs1 @ pre) w = Some w3
            \<and> perform env api ev w3 = (Inl e, w2)"
          using e1 by (simp add: replay_append)
        then show ?thesis by blast
      qed
      then show ?thesis using b Inl t by (simp del: append_assoc; blast?)
    qed
  qed
qed


lemma own_error_get_prop: "own_error (get_prop v k)"
  by (cases v) (simp_all add: own_error_def)

lemma own_error_Inr: "own_error (Inr x)"
  by (simp add: own_error_def)

lemma own_error_TypeError: "own_error (Inl (TypeError msg))"
  by (simp add: own_error_def)

lemma own_error_map_sum: "own_error r \<Longrightarrow> own_error (map_sum id f r)"
  by (cases r) (simp_all add: own_error_def)

lemma own_error_bind_pure: "own_error r \<Longrightarrow> (\<And>x. own_error (f x)) \<Longrightarrow> own_error (bind_pure r f)"
  by (cases r) (simp_all add: own_error_def bind_pure_def)

lemma own_error_resolve: "own_error (resolve env a b)"
  by (cases "(env, a, b)" rule: resolve.cases) (simp_all add: own_error_def)

lemma own_error_parse: "own_error (parse_SemVer v)"
  by (auto simp: own_error_def parse_SemVer_def match_full_def mk_SemVer_def
      split: list.splits if_splits)

lemma own_error_shouldUse: "own_error (shouldUseAutomaticRuntime version)"
  using own_error_parse [of "the version"]
  by (auto simp: own_error_def shouldUseAutomaticRuntime_def gte_17 split: option.splits sum.splits)

lemma own_error_mapped: "own_error (mapped assetsMap name)"
  using own_error_get_prop [of assetsMap name]
  by (auto simp: own_error_def mapped_def split: sum.splits val.splits)

lemma own_error_assets: "own_error (assets api assetsMap name)"
  by (simp add: assets_def own_error_mapped own_error_Inr)

lemma own_error_receiver: "own_error (receiver v k)"
  by (cases v) (simp_all add: own_error_def)

lemma own_error_concat_method: "own_error (concat_method r v)"
  by (cases r) (simp_all add: own_error_def)

lemma own_error_final: "own_error (finalMarkUpArgs api opts assetsMap a)"
  unfolding finalMarkUpArgs_def
  by (intro own_error_bind_pure own_error_get_prop own_error_receiver own_error_assets
        own_error_concat_method own_error_Inr)

lemmas own_errors = own_error_get_prop own_error_Inr own_error_TypeError own_error_map_sum
  own_error_resolve own_error_shouldUse own_error_final

lemma stops_logger_info: "stops_at_failure env api (logger_info msg)"
  unfolding logger_info_def by (rule stops_call) (simp add: discard_unit)

lemma stops_console_log: "stops_at_failure env api console_log"
  unfolding console_log_def by (rule stops_call) (simp add: discard_unit)

lemma stops_logger_event: "stops_at_failure env api (logger_event msg)"
  unfolding logger_event_def by (rule stops_call) (simp add: discard_unit)

lemma stops_dispatch: "stops_at_failure env api (dispatch api hi)"
  unfolding dispatch_def by (rule stops_call) simp

lemma stops_if:
  "stops_at_failure env api m \<Longrightarrow> stops_at_failure env api n \<Longrightarrow> stops_at_failure env api (if b then m else n)"
  by simp

lemma stops_case_prod:
  "(\<And>a b. stops_at_failure env api (f a b)) \<Longrightarrow> stops_at_failure env api (case x of (a, b) \<Rightarrow> f a b)"
  by (cases x) simp

lemma stops_write_html_file: "stops_at_failure env api (write_html_file env api file)"
  unfolding write_html_file_def
  by (intro stops_bind stops_lift stops_logger_event stops_call own_errors) (simp_all add: discard_unit)

lemma stops_write_html_files: "stops_at_failure env api (write_html_files env api files)"
  by (induction files) (auto intro!: stops_bind stops_return stops_write_html_file)

lemma stops_forEach_write: "stops_at_failure env api (forEach_write env api v)"
  by (cases v) (auto intro!: stops_lift stops_write_html_files own_errors)

lemmas stops_intros = stops_bind stops_return stops_logger_info stops_console_log
  stops_logger_event stops_dispatch stops_if stops_case_prod stops_forEach_write

lemma stops_pre_check: "stops_at_failure env api (pre_check env api)"
  unfolding pre_check_def
  by (intro stops_intros stops_call) (simp_all add: discard_unit)

lemma stops_generate: "stops_at_failure env api (generate api opts)"
  unfolding generate_def by (rule stops_dispatch)

lemma stops_build_options: "stops_at_failure env api (build_options env api)"
  unfolding build_options_def
  by (intro stops_intros stops_call stops_lift own_errors) simp_all

lemma stops_measure_sizes: "stops_at_failure env api (measure_sizes env api opts stats)"
  unfolding measure_sizes_def
  by (intro stops_intros stops_call stops_lift own_errors) (simp_all add: discard_unit)

lemma stops_build: "stops_at_failure env api (build env api)"
  unfolding build_def
  by (intro stops_intros stops_build_options stops_measure_sizes stops_call) simp_all

lemma stops_generate_html: "stops_at_failure env api (generate_html env api opts stats)"
  unfolding generate_html_def
  by (intro stops_intros stops_call stops_lift own_errors) simp_all

lemma stops_fn: "stops_at_failure env api (fn env api)"
  unfolding fn_def
  by (intro stops_intros stops_pre_check stops_generate stops_build stops_generate_html)

subsection \<open>Nothing is written before the export dispatch\<close>

lemma gate_emits:
  assumes "emits quiet m"
  shows "export_gate m"
  unfolding export_gate_def
proof
  fix s
  define evs where "evs = new_events s (m s)"
  have "fst (snd (m s)) = fst s @ evs" "list_all quiet evs"
    using emits_grows [OF assms, of s] emits_new [OF assms, of s]
    by (simp_all add: evs_def)
  then have "fst (snd (m s)) = fst s @ evs @ [] \<and> list_all quiet evs
      \<and> list_all (\<lambda>e. \<not> is_dispatch ''modifyExportHTMLFiles'' e) (tl [])"
    by simp
  then show "\<exists>a b. fst (snd (m s)) = fst s @ a @ b \<and> list_all quiet a
      \<and> list_all (\<lambda>e. \<not> is_dispatch ''modifyExportHTMLFiles'' e) (tl b)"
    by blast
qed

lemma gate_bind_left:
  assumes "emits quiet m" and "\<And>x. export_gate (f x)"
  shows "export_gate (bindM m f)"
  unfolding export_gate_def
proof
  fix s
  obtain r s1 where ms: "m s = (r, s1)" by (cases "m s")
  define evs1 where "evs1 = new_events s (m s)"
  have e1: "fst s1 = fst s @ evs1" "list_all quiet evs1"
    using emits_grows [OF assms(1), of s] emits_new [OF assms(1), of s] ms
    by (simp_all add: evs1_def)
  show "\<exists>a b. fst (snd (bindM m f s)) = fst s @ a @ b \<and> list_all quiet a
      \<and> list_all (\<lambda>e. \<not> is_dispatch ''modifyExportHTMLFiles'' e) (tl b)"
  proof (cases r)
    case (Inl e)
    have "fst (snd (bindM m f s)) = fst s @ evs1 @ [] \<and> list_all quiet evs1
      \<and> list_all (\<lambda>e. \<not> is_dispatch ''modifyExportHTMLFiles'' e) (tl [])"
      using Inl ms e1 by (simp add: bindM_def)
    then show ?thesis by blast
  next
    case (Inr x)
    obtain a b where ab: "fst (snd (f x s1)) = fst s1 @ a @ b" "list_all quiet a"
      "list_all (\<lambda>e. \<not> is_dispatch ''modifyExportHTMLFiles'' e) (tl b)"
      using assms(2) [of x] unfolding export_gate_def by blast
    have "fst (snd (bindM m f s)) = fst s @ (evs1 @ a) @ b \<and> list_all quiet (evs1 @ a)
      \<and> list_all (\<lambda>e. \<not> is_dispatch ''modifyExportHTMLFiles'' e) (tl b)"
      using Inr ms e1 ab by (simp add: bindM_def)
    then show ?thesis by blast
  qed
qed

lemma gate_bind_right:
  assumes "export_gate m" and "\<And>x. emits (\<lambda>e. \<not> is_dispatch ''modifyExportHTMLFiles'' e) (f x)"
  shows "export_gate (bindM m f)"
  unfolding export_gate_def
proof
  fix s
  obtain r s1 where ms: "m s = (r, s1)" by (cases "m s")
  have "\<exists>a b. fst (snd (m s)) = fst s @ a @ b \<and> list_all quiet a
      \<and> list_all (\<lambda>e. \<not> is_dispatch ''modifyExportHTMLFiles'' e) (tl b)"
    using assms(1) unfolding export_gate_def by (rule spec)
  then obtain a b where ab: "fst s1 = fst s @ a @ b" "list_all quiet a"
      "list_all (\<lambda>e. \<not> is_dispatch ''modifyExportHTMLFiles'' e) (tl b)"
    using ms by auto
  show "\<exists>a b. fst (snd (bindM m f s)) = fst s @ a @ b \<and> list_all quiet a
      \<and> list_all (\<lambda>e. \<not> is_dispatch ''modifyExportHTMLFiles'' e) (tl b)"
  proof (cases r)
    case (Inl e)
    then have "fst (snd (bindM m f s)) = fst s @ a @ b"
      using ms ab by (simp add: bindM_def)
    then show ?thesis using ab by blast
  next
    case (Inr x)
    define evs2 where "evs2 = new_events s1 (f x s1)"
    have e2: "fst (snd (f x s1)) = fst s1 @ evs2"
      "list_all (\<lambda>e. \<not> is_dispatch ''modifyExportHTMLFiles'' e) evs2"
      using emits_grows [OF assms(2) [of x], of s1] emits_new [OF assms(2) [of x], of s1]
      by (simp_all add: evs2_def)
    have "fst (snd (bindM m f s)) = fst s @ a @ (b @ evs2)"
      using Inr ms ab e2 by (simp add: bindM_def)
    moreover have "list_all (\<lambda>e. \<not> is_dispatch ''modifyExportHTMLFiles'' e) (tl (b @ evs2))"
      using ab(3) e2(2) by (cases b; cases evs2) (auto simp: list_all_iff)
    ultimately show ?thesis using ab(2) by blast
  qed
qed

lemma gate_call: "export_gate (call ev m)"
  unfolding export_gate_def
proof
  fix s :: "'a run"
  obtain tr w where s: "s = (tr, w)" by (cases s)
  have "fst (snd (call ev m s)) = fst s @ [] @ [ev]"
    unfolding s by (simp add: call_def split: prod.splits)
  then show "\<exists>a b. fst (snd (call ev m s)) = fst s @ a @ b \<and> list_all quiet a
      \<and> list_all (\<lambda>e. \<not> is_dispatch ''modifyExportHTMLFiles'' e) (tl b)"
    by (intro exI [of _ "[]"] exI [of _ "[ev]"]) simp
qed

lemma gate_generate_html: "export_gate (generate_html env api opts stats)"
proof (cases "truthy (lookup (config api) ''mpa'')")
  case True
  then show ?thesis
    unfolding generate_html_def by (simp add: gate_emits emits_return)
next
  case False
  have tail: "export_gate (bindM (dispatch api hi) (\<lambda>htmlFiles.
        bindM (forEach_write env api htmlFiles) (\<lambda>_. return htmlFiles)))" for hi
    unfolding dispatch_def
    by (rule gate_bind_right [OF gate_call]) (intro emits_intros; simp)
  show ?thesis
    unfolding generate_html_def using False
    apply (simp only: if_True not_False_eq_True)
    apply (rule gate_bind_left, (intro emits_intros; simp))
    apply (rule gate_bind_left, (intro emits_intros; simp))
    apply (rule gate_bind_left, (intro emits_intros; simp))
    apply (rule gate_bind_left, (intro emits_intros; simp))
    apply (rule tail)
    done
qed

lemma gate_fn: "export_gate (fn env api)"
  unfolding fn_def
  apply (rule gate_bind_left)
   apply (unfold pre_check_def, (intro emits_intros; simp))
  apply (rule gate_bind_left)
   apply (unfold generate_def, (intro emits_intros; simp))
  apply (rule gate_bind_left)
   apply (unfold build_def build_options_def measure_sizes_def, (intro emits_intros; simp))
  apply (simp only: split_def)
  apply (rule gate_bind_right [OF gate_generate_html])
  apply (intro emits_intros; simp)
  done

text \<open>When the last call of a gated run is the export dispatch, nothing was written before.\<close>

lemma gate_last:
  assumes "export_gate m" and "m (tr, w) = (r, (tr @ pre @ [ApplyPlugins hi], w'))"
    and "key hi = ''modifyExportHTMLFiles''"
  shows "list_all quiet pre"
proof -
  have "\<exists>a b. fst (snd (m (tr, w))) = fst (tr, w) @ a @ b \<and> list_all quiet a
      \<and> list_all (\<lambda>e. \<not> is_dispatch ''modifyExportHTMLFiles'' e) (tl b)"
    using assms(1) unfolding export_gate_def by (rule spec)
  then obtain a b where ab: "tr @ pre @ [ApplyPlugins hi] = tr @ a @ b" "list_all quiet a"
      "list_all (\<lambda>e. \<not> is_dispatch ''modifyExportHTMLFiles'' e) (tl b)"
    using assms(2) by auto
  have eq: "pre @ [ApplyPlugins hi] = a @ b" using ab(1) by simp
  have x: "is_dispatch ''modifyExportHTMLFiles'' (ApplyPlugins hi)" using assms(3) by simp
  show ?thesis
  proof (cases b rule: rev_cases)
    case Nil
    then have "a = pre @ [ApplyPlugins hi]" using eq by simp
    then have "ApplyPlugins hi \<in> set a" by simp
    then show ?thesis using ab(2) x by (auto simp: list_all_iff)
  next
    case (snoc b' y)
    then have y: "y = ApplyPlugins hi" "pre = a @ b'" using eq by auto
    show ?thesis
    proof (cases b')
      case Nil
      then show ?thesis using y ab(2) by simp
    next
      case (Cons z zs)
      then have "ApplyPlugins hi \<in> set (tl b)" using snoc y by simp
      then show ?thesis using ab(3) x by (auto simp: list_all_iff)
    qed
  qed
qed

text \<open>In a run that stops at failures, a call that fails is the last, and its failure the run's.\<close>

lemma failure_is_last:
  assumes "stops_at_failure env api m" and "m (tr, w) = (r, (tr @ pre @ ev # post, w'))"
    and "replay env api pre w = Some w1" and "perform env api ev w1 = (Inl e, w2)"
  shows "r = Inl e \<and> w' = w2 \<and> post = []"
proof -
  have none: "replay env api (pre @ ev # post) w = None"
    using assms(3,4) by (simp add: replay_append)
  have long: "replay env api (pre @ ev # xs) w = None" for xs
    using assms(3,4) by (simp add: replay_append)
  from assms(1) [unfolded stops_at_failure_def, rule_format, of tr w] assms(2)
  show ?thesis
  proof (cases r)
    case (Inr x)
    then show ?thesis
      using assms(1) [unfolded stops_at_failure_def, rule_format, of tr w] assms(2) none by simp
  next
    case (Inl e')
    then obtain pre2 ev2 w3 where p2: "pre @ ev # post = pre2 @ [ev2]"
      "replay env api pre2 w = Some w3" "perform env api ev2 w3 = (Inl e', w')"
      using assms(1) [unfolded stops_at_failure_def, rule_format, of tr w] assms(2) none by auto
    have "post = []"
    proof (rule ccontr)
      assume "post \<noteq> []"
      then obtain post' z where "post = post' @ [z]" by (metis rev_exhaust)
      then have "pre2 = pre @ ev # post'" using p2(1) by simp
      then show False using p2(2) long by simp
    qed
    then have "pre2 = pre" "ev2 = ev" using p2(1) by auto
    then show ?thesis using p2 assms(3,4) Inl \<open>post = []\<close> by simp
  qed
qed

subsection \<open>The react runtime\<close>

lemma parse_18_2_0:
  "parse_SemVer ''18.2.0'' = Inr \<lparr>major = 18, minor = 2, patch = 0, prerelease = []\<rparr>"
  by (simp add: semver_defs)

lemma parse_16_14_0:
  "parse_SemVer ''16.14.0'' = Inr \<lparr>major = 16, minor = 14, patch = 0, prerelease = []\<rparr>"
  by (simp add: semver_defs)

lemma parse_empty: "parse_SemVer [] = Inl (TypeError ''Invalid Version: '')"
  by (simp add: semver_defs)

lemma shouldUse_Some:
  "parse_SemVer v = Inr sv \<Longrightarrow>
     shouldUseAutomaticRuntime (Some v) = Inr (VBool (release_gte sv 17 0 0))"
  by (cases "v = []") (auto simp: shouldUseAutomaticRuntime_def gte_17 parse_empty)

lemma runtime_literal:
  "react_runtime (opts_literal api a b c d e f automatic) =
     Inr (VStr (if truthy automatic then ''automatic'' else ''classic''))"
  by (simp add: react_runtime_def opts_literal_def bind_pure_def lookup_def)

lemma build_options_result:
  assumes "build_options env api s = (Inr opts, s')"
  shows "\<exists>automatic. shouldUseAutomaticRuntime (appData_react_version api) = Inr automatic
          \<and> react_runtime opts = Inr (VStr (if truthy automatic then ''automatic'' else ''classic''))"
  using assms
  by (auto simp: build_options_def bindM_def lift_def return_def runtime_literal
           split: prod.splits sum.splits)

text \<open>
  C1. Whenever the options are composed, \<^verbatim>\<open>opts.react.runtime\<close> is \<^verbatim>\<open>automatic\<close> if
  the detected react version is at least release 17.0.0 (the boundary included) and
  \<^verbatim>\<open>classic\<close> otherwise; with no version it is \<^verbatim>\<open>classic\<close>. In particular 17.0.0 and
  18.2.0 give \<^verbatim>\<open>automatic\<close> and 16.14.0 gives \<^verbatim>\<open>classic\<close>.
\<close>

theorem react_runtime_selection:
  assumes "build_options env api s = (Inr opts, s')"
  shows "(\<forall>v sv. appData_react_version api = Some v \<and> parse_SemVer v = Inr sv \<longrightarrow>
            react_runtime opts = Inr (VStr (if release_gte sv 17 0 0 then ''automatic'' else ''classic'')))
       \<and> (appData_react_version api = None \<longrightarrow> react_runtime opts = Inr (VStr ''classic''))
       \<and> (appData_react_version api = Some ''17.0.0'' \<longrightarrow> react_runtime opts = Inr (VStr ''automatic''))
       \<and> (appData_react_version api = Some ''18.2.0'' \<longrightarrow> react_runtime opts = Inr (VStr ''automatic''))
       \<and> (appData_react_version api = Some ''16.14.0'' \<longrightarrow> react_runtime opts = Inr (VStr ''classic''))"
proof -
  obtain automatic where a: "shouldUseAutomaticRuntime (appData_react_version api) = Inr automatic"
    and r: "react_runtime opts = Inr (VStr (if truthy automatic then ''automatic'' else ''classic''))"
    using build_options_result [OF assms] by blast
  have gen: "react_runtime opts = Inr (VStr (if release_gte sv 17 0 0 then ''automatic'' else ''classic''))"
    if "appData_react_version api = Some v" "parse_SemVer v = Inr sv" for v sv
    using that a r shouldUse_Some [of v sv] by auto
  have none: "appData_react_version api = None \<Longrightarrow> react_runtime opts = Inr (VStr ''classic'')"
    using a r by (auto simp: shouldUseAutomaticRuntime_def)
  show ?thesis
    using gen [OF _ parse_17_0_0] gen [OF _ parse_18_2_0] gen [OF _ parse_16_14_0] gen none
    by (simp add: release_gte_def)
qed

theorem react_runtime_selection_witness:
  "bind_pure (fst (build_options demo_env (demo_api\<lparr>appData_react_version := Some ''17.0.0''\<rparr>) ([], [])))
     react_runtime = Inr (VStr ''automatic'')
   \<and> bind_pure (fst (build_options demo_env (demo_api\<lparr>appData_react_version := Some ''16.14.0''\<rparr>) ([], [])))
     react_runtime = Inr (VStr ''classic'')
   \<and> bind_pure (fst (build_options demo_env (demo_api\<lparr>appData_react_version := None\<rparr>) ([], [])))
     react_runtime = Inr (VStr ''classic'')"
proof -
  obtain o1 s1 where h1:
    "build_options demo_env (demo_api\<lparr>appData_react_version := Some ''17.0.0''\<rparr>) ([], []) = (Inr o1, s1)"
    by (simp add: run_defs demo_env_def demo_api_def gte_17 parse_17_0_0 release_gte_def)
  obtain o2 s2 where h2:
    "build_options demo_env (demo_api\<lparr>appData_react_version := Some ''16.14.0''\<rparr>) ([], []) = (Inr o2, s2)"
    by (simp add: run_defs demo_env_def demo_api_def gte_17 parse_16_14_0 release_gte_def)
  obtain o3 s3 where h3:
    "build_options demo_env (demo_api\<lparr>appData_react_version := None\<rparr>) ([], []) = (Inr o3, s3)"
    by (simp add: run_defs demo_env_def demo_api_def)
  show ?thesis
    using react_runtime_selection [OF h1] react_runtime_selection [OF h2]
      react_runtime_selection [OF h3]
    by (simp add: h1 h2 h3 bind_pure_def)
qed

subsection \<open>The options handed to the backend\<close>

lemma has_prop_literal:
  "has_prop (opts_literal api a b c d e f automatic) k =
     (k \<in> {''react'', ''config'', ''cwd'', ''entry'', ''beforeBabelPlugins'', ''beforeBabelPresets'',
           ''extraBabelPlugins'', ''extraBabelPresets'', ''onBuildComplete'', ''clean'', ''htmlFiles''}
      \<or> (if truthy (lookup (config api) ''vite'') then k = ''modifyViteConfig''
          else k \<in> {''babelPreset'', ''chainWebpack'', ''modifyWebpackConfig''}))"
  by (auto simp: opts_literal_def map_add_def split: option.splits)

lemma build_options_literal:
  assumes "build_options env api s = (Inr opts, s')"
  shows "\<exists>a b c d e f automatic. opts = opts_literal api a b c d e f automatic"
proof -
  from assms obtain a b c d e f automatic
    where "opts = opts_literal api a b c d e f automatic"
    by (auto simp: build_options_def bindM_def lift_def return_def split: prod.splits sum.splits)
  then show ?thesis by blast
qed

text \<open>
  C6. The options object composed for the backend has \<^verbatim>\<open>modifyViteConfig\<close> and none of
  \<^verbatim>\<open>babelPreset\<close>, \<^verbatim>\<open>chainWebpack\<close>, \<^verbatim>\<open>modifyWebpackConfig\<close> when the \<^verbatim>\<open>vite\<close> flag of the
  configuration is set; when it is not set (so also when \<^verbatim>\<open>vite\<close> and \<^verbatim>\<open>mako\<close> are both
  false) it has those three and no \<^verbatim>\<open>modifyViteConfig\<close>.
\<close>

theorem bundler_option_shape:
  assumes "build_options env api s = (Inr opts, s')"
  shows "(truthy (lookup (config api) ''vite'') \<longrightarrow>
            has_prop opts ''modifyViteConfig'' \<and> \<not> has_prop opts ''babelPreset''
          \<and> \<not> has_prop opts ''chainWebpack'' \<and> \<not> has_prop opts ''modifyWebpackConfig'')
       \<and> (\<not> truthy (lookup (config api) ''vite'') \<longrightarrow>
            has_prop opts ''babelPreset'' \<and> has_prop opts ''chainWebpack''
          \<and> has_prop opts ''modifyWebpackConfig'' \<and> \<not> has_prop opts ''modifyViteConfig'')"
  using build_options_literal [OF assms] by (auto simp: has_prop_literal)

theorem bundler_option_shape_witness:
  "(case fst (build_options demo_env (demo_api\<lparr>config := [(''vite'', VBool True)]\<rparr>) ([], [])) of
      Inl e \<Rightarrow> False
    | Inr opts \<Rightarrow> has_prop opts ''modifyViteConfig'' \<and> \<not> has_prop opts ''babelPreset''
               \<and> \<not> has_prop opts ''chainWebpack'' \<and> \<not> has_prop opts ''modifyWebpackConfig'')
   \<and> (case fst (build_options demo_env
                  (demo_api\<lparr>config := [(''vite'', VBool False), (''mako'', VBool False)]\<rparr>) ([], [])) of
      Inl e \<Rightarrow> False
    | Inr opts \<Rightarrow> has_prop opts ''babelPreset'' \<and> has_prop opts ''chainWebpack''
               \<and> has_prop opts ''modifyWebpackConfig'' \<and> \<not> has_prop opts ''modifyViteConfig'')"
proof -
  obtain o1 s1 where h1:
    "build_options demo_env (demo_api\<lparr>config := [(''vite'', VBool True)]\<rparr>) ([], []) = (Inr o1, s1)"
    by (simp add: run_defs demo_env_def demo_api_def gte_17 parse_17_1_0 release_gte_def)
  obtain o2 s2 where h2:
    "build_options demo_env (demo_api\<lparr>config := [(''vite'', VBool False), (''mako'', VBool False)]\<rparr>)
       ([], []) = (Inr o2, s2)"
    by (simp add: run_defs demo_env_def demo_api_def gte_17 parse_17_1_0 release_gte_def)
  show ?thesis
    using bundler_option_shape [OF h1] bundler_option_shape [OF h2]
    by (simp add: h1 h2 lookup_def)
qed

subsection \<open>The markup arguments\<close>

lemma final_fields:
  assumes "finalMarkUpArgs api opts assetsMap a = Inr final"
  shows "\<exists>a_styles css styles js a_scripts opts_config esm.
           get_prop a ''styles'' = Inr a_styles \<and> assets api assetsMap ''umi.css'' = Inr css
         \<and> concat_method a_styles (VArr css) = Inr styles \<and> assets api assetsMap ''umi.js'' = Inr js
         \<and> get_prop a ''scripts'' = Inr a_scripts \<and> get_prop opts ''config'' = Inr opts_config
         \<and> get_prop opts_config ''esm'' = Inr esm
         \<and> get_prop final ''styles'' = Inr styles
         \<and> get_prop final ''scripts'' = Inr (VArr (concat_arr js a_scripts))
         \<and> get_prop final ''esmScript'' = Inr (js_or (VBool (truthy esm)) (args_vite api))
         \<and> get_prop final ''path'' = Inr (VStr ''/'')"
  using assms
  by (auto simp: finalMarkUpArgs_def bind_pure_def lookup_def split: sum.splits)

text \<open>
  C5. With a backend other than vite, the final scripts are the mapped js urls (each as
  \<^verbatim>\<open>{ src }\<close>) followed by the scripts of the markup arguments, and the final styles are the
  styles of the markup arguments followed by the mapped css urls.
\<close>

theorem asset_merge_order:
  assumes "\<not> truthy (lookup (config api) ''vite'')"
    and "get_prop a ''styles'' = Inr (VArr styles)"
    and "get_prop a ''scripts'' = Inr (VArr scripts)"
    and "get_prop assetsMap ''umi.css'' = Inr (VArr css)"
    and "get_prop assetsMap ''umi.js'' = Inr (VArr js)"
    and "finalMarkUpArgs api opts assetsMap a = Inr final"
  shows "get_prop final ''scripts'' = Inr (VArr (map (\<lambda>src. VObj [(''src'', src)]) js @ scripts))
       \<and> get_prop final ''styles'' = Inr (VArr (styles @ map (\<lambda>src. VObj [(''src'', src)]) css))"
  using final_fields [OF assms(6)] assms(1-5)
  by (auto simp: assets_def mapped_def js_or_def)

theorem asset_merge_order_witness:
  "bind_pure
     (finalMarkUpArgs demo_api (VObj [(''config'', VObj [])])
        (VObj [(''umi.js'', VArr [VStr ''a.js'']), (''umi.css'', VArr [VStr ''a.css''])])
        (VObj [(''styles'', VArr [VStr ''b.css'']), (''scripts'', VArr [VStr ''b.js''])]))
     (\<lambda>final. bind_pure (get_prop final ''scripts'') (\<lambda>scripts.
               bind_pure (get_prop final ''styles'') (\<lambda>styles. Inr (scripts, styles))))
   = Inr (VArr [VObj [(''src'', VStr ''a.js'')], VStr ''b.js''],
          VArr [VStr ''b.css'', VObj [(''src'', VStr ''a.css'')]])"
proof -
  obtain final where h:
    "finalMarkUpArgs demo_api (VObj [(''config'', VObj [])])
        (VObj [(''umi.js'', VArr [VStr ''a.js'']), (''umi.css'', VArr [VStr ''a.css''])])
        (VObj [(''styles'', VArr [VStr ''b.css'']), (''scripts'', VArr [VStr ''b.js''])]) = Inr final"
    by (simp add: finalMarkUpArgs_def bind_pure_def assets_def mapped_def js_or_def lookup_def
          demo_api_def)
  have "get_prop final ''scripts'' = Inr (VArr [VObj [(''src'', VStr ''a.js'')], VStr ''b.js''])
      \<and> get_prop final ''styles'' = Inr (VArr [VStr ''b.css'', VObj [(''src'', VStr ''a.css'')]])"
    using asset_merge_order [where api = demo_api and styles = "[VStr ''b.css'']"
        and scripts = "[VStr ''b.js'']" and css = "[VStr ''a.css'']" and js = "[VStr ''a.js'']", OF _ _ _ _ _ h]
    by (simp add: lookup_def demo_api_def)
  then show ?thesis
    by (simp add: h bind_pure_def)
qed

text \<open>
  C7. In the final markup arguments \<^verbatim>\<open>esmScript\<close> is truthy exactly when
  \<^verbatim>\<open>opts.config.esm\<close> is truthy or \<^verbatim>\<open>api.args.vite\<close> is; it is the value \<^verbatim>\<open>true\<close> exactly
  when \<^verbatim>\<open>opts.config.esm\<close> is truthy or \<^verbatim>\<open>api.args.vite\<close> is \<^verbatim>\<open>true\<close>.
\<close>

theorem esmScript_flag:
  assumes "finalMarkUpArgs api opts assetsMap a = Inr final"
  shows "\<exists>opts_config esm esmScript.
           get_prop opts ''config'' = Inr opts_config \<and> get_prop opts_config ''esm'' = Inr esm
         \<and> get_prop final ''esmScript'' = Inr esmScript
         \<and> (truthy esmScript \<longleftrightarrow> truthy esm \<or> truthy (args_vite api))
         \<and> (esmScript = VBool True \<longleftrightarrow> truthy esm \<or> args_vite api = VBool True)"
  using final_fields [OF assms]
  by (auto simp: js_or_def)

theorem esmScript_flag_witness:
  "bind_pure
     (finalMarkUpArgs demo_api (VObj [(''config'', VObj [(''esm'', VObj [])])]) (VObj [])
        (VObj [(''styles'', VArr []), (''scripts'', VArr [])]))
     (\<lambda>final. get_prop final ''esmScript'') = Inr (VBool True)
   \<and> bind_pure
     (finalMarkUpArgs (demo_api\<lparr>args_vite := VBool True\<rparr>) (VObj [(''config'', VObj [])]) (VObj [])
        (VObj [(''styles'', VArr []), (''scripts'', VArr [])]))
     (\<lambda>final. get_prop final ''esmScript'') = Inr (VBool True)
   \<and> bind_pure
     (finalMarkUpArgs demo_api (VObj [(''config'', VObj [])]) (VObj [])
        (VObj [(''styles'', VArr []), (''scripts'', VArr [])]))
     (\<lambda>final. map_sum id truthy (get_prop final ''esmScript'')) = Inr False"
proof -
  obtain f1 where h1:
    "finalMarkUpArgs demo_api (VObj [(''config'', VObj [(''esm'', VObj [])])]) (VObj [])
        (VObj [(''styles'', VArr []), (''scripts'', VArr [])]) = Inr f1"
    by (simp add: finalMarkUpArgs_def bind_pure_def assets_def mapped_def js_or_def lookup_def
          demo_api_def)
  obtain f2 where h2:
    "finalMarkUpArgs (demo_api\<lparr>args_vite := VBool True\<rparr>) (VObj [(''config'', VObj [])]) (VObj [])
        (VObj [(''styles'', VArr []), (''scripts'', VArr [])]) = Inr f2"
    by (simp add: finalMarkUpArgs_def bind_pure_def assets_def mapped_def js_or_def lookup_def
          demo_api_def)
  obtain f3 where h3:
    "finalMarkUpArgs demo_api (VObj [(''config'', VObj [])]) (VObj [])
        (VObj [(''styles'', VArr []), (''scripts'', VArr [])]) = Inr f3"
    by (simp add: finalMarkUpArgs_def bind_pure_def assets_def mapped_def js_or_def lookup_def
          demo_api_def)
  have "get_prop f1 ''esmScript'' = Inr (VBool True)"
    using esmScript_flag [OF h1] by (auto simp: lookup_def)
  moreover have "get_prop f2 ''esmScript'' = Inr (VBool True)"
    using esmScript_flag [OF h2] by (auto simp: lookup_def)
  moreover have "map_sum id truthy (get_prop f3 ''esmScript'') = Inr False"
    using esmScript_flag [OF h3] by (auto simp: lookup_def demo_api_def)
  ultimately show ?thesis
    by (simp add: h1 h2 h3 bind_pure_def)
qed

subsection \<open>The functions handed to the backend\<close>

text \<open>
  C10. \<^verbatim>\<open>chainWebpack\<close> runs the MODIFY dispatch of its key (the fold of the registered
  handlers from \<open>memo\<close>), fails when the dispatch fails, and otherwise returns
  \<^verbatim>\<open>undefined\<close> in place of the final accumulator; \<^verbatim>\<open>modifyWebpackConfig\<close> and
  \<^verbatim>\<open>modifyViteConfig\<close> return the final accumulator of the dispatch of their key.
\<close>

theorem backend_functions:
  "chainWebpack api memo a w =
     (case apply_modify (hooks api ''chainWebpack'') memo a w of
        (Inl e, w') \<Rightarrow> (Inl e, w') | (Inr acc, w') \<Rightarrow> (Inr VUndefined, w'))
   \<and> modifyWebpackConfig api memo a w = apply_modify (hooks api ''modifyWebpackConfig'') memo a w
   \<and> modifyViteConfig api memo a w = apply_modify (hooks api ''modifyViteConfig'') memo a w"
  by (simp add: chainWebpack_def modifyWebpackConfig_def modifyViteConfig_def applyPlugins_def
        resolve_mode_def starts_with_def bindM_def return_def lift_def split: prod.splits sum.splits)

theorem backend_functions_witness:
  "chainWebpack marking_api (VStr ''cfg'') VUndefined [] = (Inr VUndefined, [])
   \<and> modifyWebpackConfig marking_api (VStr ''cfg'') VUndefined [] = (Inr (VStr ''cfg-first-second''), [])
   \<and> modifyViteConfig marking_api (VStr ''cfg'') VUndefined [] = (Inr (VStr ''cfg-first-second''), [])"
  using backend_functions [of marking_api "VStr ''cfg''" VUndefined "[]"]
  by (simp add: marking_api_def demo_api_def append_name_def arg_def bindM_def return_def lift_def)

subsection \<open>The generate dispatch\<close>

lemma pre_check_quiet: "emits (\<lambda>e. \<not> is_dispatch ''onGenerateFiles'' e) (pre_check env api)"
  unfolding pre_check_def by (intro emits_intros) simp_all

lemma after_generate_quiet:
  "emits (\<lambda>e. \<not> is_dispatch ''onGenerateFiles'' e)
     (bindM (build env api) (\<lambda>(opts, stats).
      bindM (generate_html env api opts stats) (\<lambda>htmlFiles.
      bindM (dispatch api
              \<lparr>key = ''onBuildHtmlComplete'', mode = None, initialValue = VUndefined,
               args = VObj (own_props opts @ [(''htmlFiles'', htmlFiles)])\<rparr>) (\<lambda>_.
      return ()))))"
  unfolding build_def build_options_def measure_sizes_def generate_html_def
  by (intro emits_intros) simp_all

text \<open>
  C9, as the code has it. In every run the \<^verbatim>\<open>onGenerateFiles\<close> dispatch is issued at most
  once: not at all when the run fails before it (in the logging, the clearing of the
  temporary directory or the \<^verbatim>\<open>onCheckPkgJSON\<close> dispatch), once otherwise. Its arguments
  are \<^verbatim>\<open>isFirstTime\<close> true and \<^verbatim>\<open>files\<close> \<^verbatim>\<open>null\<close>: \<^verbatim>\<open>generate\<close> is called without a
  file list and passes \<^verbatim>\<open>opts.files || null\<close>.
\<close>

theorem generate_dispatch:
  "filter (is_dispatch ''onGenerateFiles'') (new_events s (fn env api s)) =
     (case fst (pre_check env api s) of
        Inl e \<Rightarrow> []
      | Inr u \<Rightarrow> [ApplyPlugins \<lparr>key = ''onGenerateFiles'', mode = None, initialValue = VUndefined,
                    args = VObj [(''files'', VNull), (''isFirstTime'', VBool True)]\<rparr>])"
proof -
  let ?rest = "bindM (build env api) (\<lambda>(opts, stats).
      bindM (generate_html env api opts stats) (\<lambda>htmlFiles.
      bindM (dispatch api
              \<lparr>key = ''onBuildHtmlComplete'', mode = None, initialValue = VUndefined,
               args = VObj (own_props opts @ [(''htmlFiles'', htmlFiles)])\<rparr>) (\<lambda>_.
      return ())))"
  let ?gen = "generate api [(''isFirstTime'', VBool True)]"
  let ?ev = "ApplyPlugins \<lparr>key = ''onGenerateFiles'', mode = None, initialValue = VUndefined,
                    args = VObj [(''files'', VNull), (''isFirstTime'', VBool True)]\<rparr>"
  have gen: "emits (\<lambda>e. True) ?gen"
    unfolding generate_def by (intro emits_intros) simp
  have rest: "emits (\<lambda>e. \<not> is_dispatch ''onGenerateFiles'' e) ?rest"
    by (rule after_generate_quiet)
  have tail: "emits (\<lambda>e. True) (bindM ?gen (\<lambda>_. ?rest))"
    by (intro emits_bind gen emits_mono [OF rest]) simp
  have fn: "fn env api = bindM (pre_check env api) (\<lambda>_. bindM ?gen (\<lambda>_. ?rest))"
    by (simp add: fn_def)
  obtain r s1 where pre: "pre_check env api s = (r, s1)" by (cases "pre_check env api s")
  have quiet: "filter (is_dispatch ''onGenerateFiles'') (new_events s (pre_check env api s)) = []"
    by (rule filter_emits [OF pre_check_quiet]) simp
  show ?thesis
  proof (cases r)
    case (Inl e)
    then show ?thesis
      using pre quiet by (simp add: fn new_events_bind [OF pre_check_quiet tail])
  next
    case (Inr u)
    have g: "new_events s1 (?gen s1) = [?ev]"
      by (simp add: generate_def dispatch_def new_events_call js_or_def lookup_def)
    obtain r2 s2 where gs: "?gen s1 = (r2, s2)" by (cases "?gen s1")
    have g2: "new_events s1 (r2, s2) = [?ev]"
      using g gs by simp
    have q2: "filter (is_dispatch ''onGenerateFiles'') (new_events s2 (?rest s2)) = []"
      by (rule filter_emits [OF rest]) simp
    have "filter (is_dispatch ''onGenerateFiles'') (new_events s1 (bindM ?gen (\<lambda>_. ?rest) s1)) = [?ev]"
      using gs g2 q2 by (cases r2) (simp_all add: new_events_bind [OF gen rest])
    then show ?thesis
      using pre quiet Inr
      by (simp add: fn new_events_bind [OF pre_check_quiet tail])
  qed
qed

theorem generate_dispatch_witness:
  "filter (is_dispatch ''onGenerateFiles'') (new_events ([], []) (fn demo_env demo_api ([], []))) =
     [ApplyPlugins \<lparr>key = ''onGenerateFiles'', mode = None, initialValue = VUndefined,
        args = VObj [(''files'', VNull), (''isFirstTime'', VBool True)]\<rparr>]"
proof -
  have "fst (pre_check demo_env demo_api ([], [])) = Inr VUndefined"
    by (simp add: eval_defs demo_defs)
  then show ?thesis
    using generate_dispatch [of "([], [])" demo_env demo_api] by simp
qed

text \<open>
  The claim as written fails twice: in a run that completes, the \<^verbatim>\<open>files\<close> argument of the
  one dispatch is \<^verbatim>\<open>null\<close>, not an empty list; in a run whose \<^verbatim>\<open>onCheckPkgJSON\<close> handler
  throws, the dispatch is not issued.
\<close>

theorem generate_dispatch_counterexample:
  "fst (fn demo_env webpack_api ([], [])) = Inr ()
   \<and> filter (is_dispatch ''onGenerateFiles'') (new_events ([], []) (fn demo_env webpack_api ([], []))) =
     [ApplyPlugins \<lparr>key = ''onGenerateFiles'', mode = None, initialValue = VUndefined,
        args = VObj [(''files'', VNull), (''isFirstTime'', VBool True)]\<rparr>]
   \<and> filter (is_dispatch ''onGenerateFiles'')
       (new_events ([], []) (fn demo_env (failing_api ''onCheckPkgJSON'') ([], []))) = []"
  by (simp add: eval_defs demo_defs)

subsection \<open>The file sizes\<close>

lemma build_first_bind:
  assumes "emits (\<lambda>e. \<not> is_measure e \<and> \<not> is_build e) m" and "\<And>x. build_first (f x)"
  shows "build_first (bindM m f)"
  unfolding build_first_def
proof
  fix s
  obtain r s1 where ms: "m s = (r, s1)" by (cases "m s")
  obtain evs1 where e1: "fst s1 = fst s @ evs1" "list_all (\<lambda>e. \<not> is_measure e \<and> \<not> is_build e) evs1"
    using emitsE [OF assms(1), of s] ms by (metis snd_conv)
  have t1: "takeWhile (\<lambda>e. \<not> is_build e) (evs1 @ ys) = evs1 @ takeWhile (\<lambda>e. \<not> is_build e) ys" for ys
    using e1(2) by (intro takeWhile_append2) (simp add: list_all_iff)
  have f1: "filter is_measure evs1 = []"
    using e1(2) by (auto simp: list_all_iff filter_empty_conv)
  show "\<exists>evs. fst (snd (bindM m f s)) = fst s @ evs
       \<and> filter is_measure (takeWhile (\<lambda>e. \<not> is_build e) evs) = []"
  proof (cases r)
    case (Inl e)
    have "filter is_measure (takeWhile (\<lambda>e. \<not> is_build e) evs1) = []"
      using e1(2) by (auto simp: list_all_iff filter_empty_conv dest: set_takeWhileD)
    then show ?thesis using Inl ms e1 by (simp add: bindM_def)
  next
    case (Inr x)
    obtain evs2 where e2: "fst (snd (f x s1)) = fst s1 @ evs2"
      "filter is_measure (takeWhile (\<lambda>e. \<not> is_build e) evs2) = []"
      using assms(2) [of x] unfolding build_first_def by blast
    have "fst (snd (bindM m f s)) = fst s @ (evs1 @ evs2)"
      using Inr ms e1 e2 by (simp add: bindM_def)
    moreover have "filter is_measure (takeWhile (\<lambda>e. \<not> is_build e) (evs1 @ evs2)) = []"
      using t1 f1 e2(2) by simp
    ultimately show ?thesis by blast
  qed
qed

lemma build_first_call:
  assumes "\<And>x. emits (\<lambda>e. True) (f x)"
  shows "build_first (bindM (call (BundlerBuild b opts) m) f)"
  unfolding build_first_def
proof
  fix s
  have c: "emits (\<lambda>e. True) (call (BundlerBuild b opts) m)"
    by (rule emits_call) simp
  have "emits (\<lambda>e. True) (bindM (call (BundlerBuild b opts) m) f)"
    by (rule emits_bind [OF c assms])
  then have g: "fst (snd (bindM (call (BundlerBuild b opts) m) f s)) =
      fst s @ new_events s (bindM (call (BundlerBuild b opts) m) f s)"
    by (rule emits_grows)
  obtain r s1 where cs: "call (BundlerBuild b opts) m s = (r, s1)"
    by (cases "call (BundlerBuild b opts) m s")
  have "new_events s (r, s1) = [BundlerBuild b opts]"
    using new_events_call [of s "BundlerBuild b opts" m] cs by simp
  then have "\<exists>rest. new_events s (bindM (call (BundlerBuild b opts) m) f s) = BundlerBuild b opts # rest"
    using cs by (cases r) (simp_all add: new_events_bind [OF c assms])
  then show "\<exists>evs. fst (snd (bindM (call (BundlerBuild b opts) m) f s)) = fst s @ evs
       \<and> filter is_measure (takeWhile (\<lambda>e. \<not> is_build e) evs) = []"
    using g by (metis filter.simps(1) is_build.simps(1) takeWhile.simps(2))
qed

lemma fn_build_first: "build_first (fn env api)"
  unfolding fn_flat pre_check_def generate_def build_options_def measure_sizes_def
    generate_html_def
  apply (simp only: bindM_assoc)
  apply (intro build_first_call build_first_bind emits_intros)
                      apply simp_all
  done

text \<open>
  C2 does not hold of the code. In every run, no file sizes are measured before the
  backend's build is called: \<^verbatim>\<open>measureFileSizesBeforeBuild\<close> is called after
  \<^verbatim>\<open>bundler.build\<close> has returned. In the concrete run the build comes tenth and the
  measurement eleventh, and the "previous" sizes handed to the reporter already count the
  bundle the build has written.
\<close>

theorem measured_after_build:
  "filter is_measure (takeWhile (\<lambda>e. \<not> is_build e) (new_events s (fn env api s))) = []
   \<and> map label (new_events ([], []) (fn demo_env webpack_api ([], []))) =
       [''logger.info'', ''rimraf.sync'', ''applyPlugins onCheckPkgJSON'',
        ''applyPlugins onGenerateFiles'', ''getBabelOpts'', ''applyPlugins modifyEntry'',
        ''applyPlugins onBeforeCompiler'', ''applyPlugins modifyUniBundlerOpts'',
        ''applyPlugins modifyUniBundler'', ''bundler.build'', ''measureFileSizesBeforeBuild'',
        ''console.log'', ''logger.info'', ''printFileSizesAfterBuild'', ''getAssetsMap'',
        ''getMarkupArgs'', ''getMarkup'', ''applyPlugins modifyExportHTMLFiles'', ''mkdirpSync'',
        ''writeFileSync'', ''logger.event'', ''applyPlugins onBuildHtmlComplete'']
   \<and> filter is_report (new_events ([], []) (fn demo_env webpack_api ([], []))) =
       [PrintFileSizesAfterBuild (VObj [(''bundler'', VStr ''webpack'')]) (VNum 1) ''/app/dist'']"
proof -
  obtain evs where "fst (snd (fn env api s)) = fst s @ evs"
    "filter is_measure (takeWhile (\<lambda>e. \<not> is_build e) evs) = []"
    using fn_build_first [of env api] unfolding build_first_def by blast
  then have "filter is_measure (takeWhile (\<lambda>e. \<not> is_build e) (new_events s (fn env api s))) = []"
    by (simp add: new_events_def)
  moreover have "map label (new_events ([], []) (fn demo_env webpack_api ([], []))) =
       [''logger.info'', ''rimraf.sync'', ''applyPlugins onCheckPkgJSON'',
        ''applyPlugins onGenerateFiles'', ''getBabelOpts'', ''applyPlugins modifyEntry'',
        ''applyPlugins onBeforeCompiler'', ''applyPlugins modifyUniBundlerOpts'',
        ''applyPlugins modifyUniBundler'', ''bundler.build'', ''measureFileSizesBeforeBuild'',
        ''console.log'', ''logger.info'', ''printFileSizesAfterBuild'', ''getAssetsMap'',
        ''getMarkupArgs'', ''getMarkup'', ''applyPlugins modifyExportHTMLFiles'', ''mkdirpSync'',
        ''writeFileSync'', ''logger.event'', ''applyPlugins onBuildHtmlComplete'']"
    by (simp add: eval_defs demo_defs)
  moreover have "filter is_report (new_events ([], []) (fn demo_env webpack_api ([], []))) =
       [PrintFileSizesAfterBuild (VObj [(''bundler'', VStr ''webpack'')]) (VNum 1) ''/app/dist'']"
    by (simp add: eval_defs demo_defs)
  ultimately show ?thesis by blast
qed

subsection \<open>The HTML documents\<close>

lemma write_default:
  "write_html_files env api [VObj [(''path'', VStr ''index.html''), (''content'', content)]] (tr, w) =
     (case mkdirpSync env (path_dirname env (path_resolve env (paths_absOutputPath api) ''index.html'')) w of
        (Inl e, w4) \<Rightarrow>
          (Inl e, (tr @ [MkdirpSync (path_dirname env (path_resolve env (paths_absOutputPath api) ''index.html''))], w4))
      | (Inr u, w4) \<Rightarrow>
          (case writeFileSync env (path_resolve env (paths_absOutputPath api) ''index.html'') content w4 of
             (Inl e, w5) \<Rightarrow>
               (Inl e, (tr @ [MkdirpSync (path_dirname env (path_resolve env (paths_absOutputPath api) ''index.html'')),
                              WriteFileSync (path_resolve env (paths_absOutputPath api) ''index.html'') content], w5))
           | (Inr u, w5) \<Rightarrow>
               (Inr (), (tr @ [MkdirpSync (path_dirname env (path_resolve env (paths_absOutputPath api) ''index.html'')),
                               WriteFileSync (path_resolve env (paths_absOutputPath api) ''index.html'') content,
                               LoggerEvent ''Build index.html''], w5))))"
  by (simp add: write_html_file_def io_defs lookup_def split: prod.splits sum.splits)

lemma export_unhandled:
  assumes "hooks api ''modifyExportHTMLFiles'' = []"
  shows "dispatch api \<lparr>key = ''modifyExportHTMLFiles'', mode = None, initialValue = iv, args = a\<rparr> (tr, w) =
     (Inr iv, (tr @ [ApplyPlugins \<lparr>key = ''modifyExportHTMLFiles'', mode = None, initialValue = iv, args = a\<rparr>], w))"
  using assms by (simp add: io_defs applyPlugins_def resolve_mode_def starts_with_def)

text \<open>
  C4. In a run that is not in multi-page mode, with no handler under
  \<^verbatim>\<open>modifyExportHTMLFiles\<close>, the HTML stage completes exactly when each of its calls
  returns normally: \<^verbatim>\<open>getAssetsMap\<close> (not called for vite), \<^verbatim>\<open>getMarkupArgs\<close>, the final
  markup arguments, \<^verbatim>\<open>getMarkup\<close> on them, and then, for
  \<open>p\<close> = \<^verbatim>\<open>resolve(api.paths.absOutputPath, 'index.html')\<close>, \<^verbatim>\<open>mkdirpSync(dirname(p))\<close>
  followed by \<^verbatim>\<open>writeFileSync(p, content)\<close>. The dispatch is seeded with and returns the one
  document \<^verbatim>\<open>{ path: 'index.html', content }\<close>, where \<^verbatim>\<open>content\<close> is what \<^verbatim>\<open>getMarkup\<close>
  returned; the stage makes these calls and no other, each on the world the one before has
  left, and the world it leaves is the one the write has produced.
\<close>

theorem html_default_document:
  assumes "\<not> truthy (lookup (config api) ''mpa'')"
    and "hooks api ''modifyExportHTMLFiles'' = []"
  shows "generate_html env api opts stats (tr, w) = (Inr htmlFiles, s') \<longleftrightarrow>
     (\<exists>assetsMap a markupArgs content w1 w2 w3 w4 w5.
        (if truthy (lookup (config api) ''vite'') then assetsMap = VObj [] \<and> w1 = w
         else getAssetsMap env stats (lookup (config api) ''publicPath'') w = (Inr assetsMap, w1))
      \<and> getMarkupArgs env w1 = (Inr a, w2)
      \<and> finalMarkUpArgs api opts assetsMap a = Inr markupArgs
      \<and> getMarkup env markupArgs w2 = (Inr content, w3)
      \<and> mkdirpSync env (path_dirname env (path_resolve env (paths_absOutputPath api) ''index.html'')) w3
          = (Inr (), w4)
      \<and> writeFileSync env (path_resolve env (paths_absOutputPath api) ''index.html'') content w4
          = (Inr (), w5)
      \<and> htmlFiles = VArr [VObj [(''path'', VStr ''index.html''), (''content'', content)]]
      \<and> s' = (tr @ (if truthy (lookup (config api) ''vite'') then []
                      else [CallGetAssetsMap stats (lookup (config api) ''publicPath'')])
                  @ [CallGetMarkupArgs, CallGetMarkup markupArgs,
                     ApplyPlugins \<lparr>key = ''modifyExportHTMLFiles'', mode = None, initialValue = htmlFiles,
                       args = VObj [(''markupArgs'', markupArgs), (''getMarkup'', VClosure GetMarkup)]\<rparr>,
                     MkdirpSync (path_dirname env (path_resolve env (paths_absOutputPath api) ''index.html'')),
                     WriteFileSync (path_resolve env (paths_absOutputPath api) ''index.html'') content,
                     LoggerEvent ''Build index.html''],
               w5))"
  (is "?L \<longleftrightarrow> ?R")
proof
  assume ?L
  then show ?R
    using assms
    by (auto simp: generate_html_def bindM_def lift_def return_def call_def write_default export_unhandled
          simp del: write_html_files.simps split: prod.splits sum.splits if_splits)
next
  assume ?R
  then show ?L
    using assms
    by (auto simp: generate_html_def bindM_def lift_def return_def call_def write_default export_unhandled
          simp del: write_html_files.simps)
qed

theorem html_default_document_witness:
  "generate_html demo_env demo_api (VObj [(''config'', VObj [])]) (VObj []) ([], []) =
     (Inr (VArr [VObj [(''path'', VStr ''index.html''), (''content'', VStr ''<html>'')]]),
      ([CallGetAssetsMap (VObj []) VUndefined, CallGetMarkupArgs,
        CallGetMarkup (VObj [(''styles'', VArr [VStr ''b.css'']), (''scripts'', VArr [VStr ''b.js'']),
           (''styles'', VArr [VStr ''b.css'', VObj [(''src'', VStr ''/umi.css'')]]),
           (''scripts'', VArr [VObj [(''src'', VStr ''/umi.js'')], VStr ''b.js'']),
           (''esmScript'', VUndefined), (''path'', VStr ''/'')]),
        ApplyPlugins \<lparr>key = ''modifyExportHTMLFiles'', mode = None,
          initialValue = VArr [VObj [(''path'', VStr ''index.html''), (''content'', VStr ''<html>'')]],
          args = VObj [(''markupArgs'', VObj [(''styles'', VArr [VStr ''b.css'']), (''scripts'', VArr [VStr ''b.js'']),
             (''styles'', VArr [VStr ''b.css'', VObj [(''src'', VStr ''/umi.css'')]]),
             (''scripts'', VArr [VObj [(''src'', VStr ''/umi.js'')], VStr ''b.js'']),
             (''esmScript'', VUndefined), (''path'', VStr ''/'')]),
            (''getMarkup'', VClosure GetMarkup)]\<rparr>,
        MkdirpSync ''/app/dist'', WriteFileSync ''/app/dist/index.html'' (VStr ''<html>''),
        LoggerEvent ''Build index.html''],
       [(''/app/dist/index.html'', VStr ''<html>'')]))
   \<and> (\<forall>htmlFiles s'. generate_html full_disk_env demo_api (VObj [(''config'', VObj [])]) (VObj []) ([], [])
          \<noteq> (Inr htmlFiles, s'))"
proof -
  let ?margs = "VObj [(''styles'', VArr [VStr ''b.css'']), (''scripts'', VArr [VStr ''b.js'']),
           (''styles'', VArr [VStr ''b.css'', VObj [(''src'', VStr ''/umi.css'')]]),
           (''scripts'', VArr [VObj [(''src'', VStr ''/umi.js'')], VStr ''b.js'']),
           (''esmScript'', VUndefined), (''path'', VStr ''/'')]"
  have mpa: "\<not> truthy (lookup (config demo_api) ''mpa'')"
    and hk: "hooks demo_api ''modifyExportHTMLFiles'' = []"
    and vite: "\<not> truthy (lookup (config demo_api) ''vite'')"
    and pp: "lookup (config demo_api) ''publicPath'' = VUndefined"
    and out: "paths_absOutputPath demo_api = ''/app/dist''"
    by (simp_all add: demo_api_def lookup_def)
  have final: "finalMarkUpArgs demo_api (VObj [(''config'', VObj [])])
      (VObj [(''umi.js'', VArr [VStr ''/umi.js'']), (''umi.css'', VArr [VStr ''/umi.css''])])
      (VObj [(''styles'', VArr [VStr ''b.css'']), (''scripts'', VArr [VStr ''b.js''])]) = Inr ?margs"
    by (simp add: finalMarkUpArgs_def bind_pure_def assets_def mapped_def js_or_def lookup_def
          demo_api_def)
  have calls: "getAssetsMap demo_env (VObj []) VUndefined [] =
        (Inr (VObj [(''umi.js'', VArr [VStr ''/umi.js'']), (''umi.css'', VArr [VStr ''/umi.css''])]), [])"
    "getMarkupArgs demo_env [] = (Inr (VObj [(''styles'', VArr [VStr ''b.css'']), (''scripts'', VArr [VStr ''b.js''])]), [])"
    "getMarkup demo_env ?margs [] = (Inr (VStr ''<html>''), [])"
    "path_resolve demo_env ''/app/dist'' ''index.html'' = ''/app/dist/index.html''"
    "path_dirname demo_env ''/app/dist/index.html'' = ''/app/dist''"
    "mkdirpSync demo_env ''/app/dist'' [] = (Inr (), [])"
    "writeFileSync demo_env ''/app/dist/index.html'' (VStr ''<html>'') [] =
        (Inr (), [(''/app/dist/index.html'', VStr ''<html>'')])"
    by (simp_all add: demo_env_def return_def lift_def)
  have first: "generate_html demo_env demo_api (VObj [(''config'', VObj [])]) (VObj []) ([], []) =
     (Inr (VArr [VObj [(''path'', VStr ''index.html''), (''content'', VStr ''<html>'')]]),
      ([CallGetAssetsMap (VObj []) VUndefined, CallGetMarkupArgs, CallGetMarkup ?margs,
        ApplyPlugins \<lparr>key = ''modifyExportHTMLFiles'', mode = None,
          initialValue = VArr [VObj [(''path'', VStr ''index.html''), (''content'', VStr ''<html>'')]],
          args = VObj [(''markupArgs'', ?margs), (''getMarkup'', VClosure GetMarkup)]\<rparr>,
        MkdirpSync ''/app/dist'', WriteFileSync ''/app/dist/index.html'' (VStr ''<html>''),
        LoggerEvent ''Build index.html''],
       [(''/app/dist/index.html'', VStr ''<html>'')]))"
    apply (rule html_default_document [OF mpa hk, THEN iffD2])
    apply (simp only: vite pp out if_False)
    apply (intro exI conjI)
           apply (rule calls(1))
          apply (rule calls(2))
         apply (rule final)
        apply (rule calls(3))
       apply (simp only: calls)
      apply (simp only: calls)
     apply (rule refl)
    apply (simp add: calls)
    done
  have full: "writeFileSync full_disk_env p c w4 \<noteq> (Inr (), w5)" for p c w4 w5
    by (simp add: full_disk_env_def demo_env_def lift_def)
  have second: "generate_html full_disk_env demo_api (VObj [(''config'', VObj [])]) (VObj []) ([], [])
          \<noteq> (Inr htmlFiles, s')" for htmlFiles s'
    using html_default_document [OF mpa hk, of full_disk_env "VObj [(''config'', VObj [])]" "VObj []"
        "[]" "[]" htmlFiles s'] full
    by blast
  show ?thesis using first second by blast
qed

subsection \<open>A complete run\<close>

lemma reliableD:
  assumes "reliable env"
  shows "\<exists>w'. rimraf_sync env p w = (Inr (), w')"
    and "\<exists>kvs w'. getBabelOpts env w = (Inr (VObj kvs), w')"
    and "\<exists>stats w'. bundler_build env b f opts w = (Inr stats, w')"
    and "\<exists>prev w'. measureFileSizesBeforeBuild env p w = (Inr prev, w')"
    and "\<exists>w'. printFileSizesAfterBuild env stats prev p w = (Inr (), w')"
    and "\<exists>m css js w'. getAssetsMap env stats publicPath w = (Inr m, w')
           \<and> mapped m ''umi.css'' = Inr css \<and> mapped m ''umi.js'' = Inr js"
    and "\<exists>kvs styles w'. getMarkupArgs env w = (Inr (VObj kvs), w') \<and> lookup kvs ''styles'' = VArr styles"
    and "\<exists>content w'. getMarkup env a w = (Inr content, w')"
    and "\<exists>w'. mkdirpSync env p w = (Inr (), w')"
    and "\<exists>w'. writeFileSync env p c w = (Inr (), w')"
  using assms unfolding reliable_def by simp_all

lemma reliable_demo: "reliable demo_env"
  by (simp add: reliable_def demo_env_def return_def lift_def mapped_def js_or_def lookup_def)

lemma pre_check_ok:
  assumes "reliable env" "hooks api ''onCheckPkgJSON'' = []"
  shows "\<exists>evs w'. pre_check env api (tr, w) = (Inr VUndefined, (tr @ evs, w'))
          \<and> filter is_build evs = [] \<and> filter is_write evs = [] \<and> filter is_report evs = []"
proof -
  obtain w1 where "rimraf_sync env (paths_absTmpPath api) w = (Inr (), w1)"
    using reliableD(1) [OF assms(1)] by blast
  then show ?thesis
    using assms(2)
    by (simp add: pre_check_def io_defs applyPlugins_def resolve_mode_def starts_with_def)
qed

lemma generate_ok:
  assumes "hooks api ''onGenerateFiles'' = []"
  shows "\<exists>evs. generate api opts (tr, w) = (Inr VUndefined, (tr @ evs, w))
          \<and> filter is_build evs = [] \<and> filter is_write evs = [] \<and> filter is_report evs = []"
  using assms
  by (simp add: generate_def io_defs applyPlugins_def resolve_mode_def starts_with_def)

lemma build_options_ok:
  assumes "reliable env" "hooks api ''modifyEntry'' = []" "appData_react_version api = Some ''17.1.0''"
  shows "\<exists>a b c d e f evs w'. build_options env api (tr, w) =
            (Inr (opts_literal api a b c d e f (VBool True)), (tr @ evs, w'))
          \<and> filter is_build evs = [] \<and> filter is_write evs = [] \<and> filter is_report evs = []"
proof -
  obtain kvs w1 where "getBabelOpts env w = (Inr (VObj kvs), w1)"
    using reliableD(2) [OF assms(1)] by blast
  then show ?thesis
    using assms(2,3)
    apply (simp add: build_options_def io_defs applyPlugins_def resolve_mode_def starts_with_def
          shouldUseAutomaticRuntime_def gte_17 parse_17_1_0 release_gte_def)
    apply blast
    done
qed

lemma output_path:
  assumes "optional_string u" "optional_string (lookup cfg ''outputPath'')"
  shows "\<exists>out. js_or (lookup ([(''outputPath'', js_or u (VStr ''dist''))] @ cfg) ''outputPath'') (VStr d) = VStr out"
  using assms
  apply (cases u; cases "map_of (rev cfg) ''outputPath''")
  apply (auto simp: lookup_def js_or_def split: option.splits elim: optional_string.elims)
  done


lemma literal_props:
  "get_prop (opts_literal api a b c d e f automatic) ''cwd'' = Inr (VStr (cwd api))"
  "get_prop (opts_literal api a b c d e f automatic) ''config'' =
     Inr (VObj ([(''outputPath'', js_or (userConfig_outputPath api) (VStr ''dist''))] @ config api))"
  by (simp_all add: opts_literal_def lookup_def)

lemma build_ok:
  assumes "reliable env"
    and "hooks api ''modifyEntry'' = [] \<and> hooks api ''onBeforeCompiler'' = []
       \<and> hooks api ''modifyUniBundlerOpts'' = [] \<and> hooks api ''modifyUniBundler'' = [h]"
    and "\<And>argv w. \<exists>w'. h argv w = (Inr (VBundler b), w')"
    and "appData_react_version api = Some ''17.1.0''"
    and "\<not> truthy (lookup (config api) ''vite'')" "\<not> truthy (lookup (config api) ''mako'')"
    and "optional_string (userConfig_outputPath api)"
    and "optional_string (lookup (config api) ''outputPath'')"
  shows "\<exists>opts stats evs w' prev p. build env api (tr, w) = (Inr (opts, stats), (tr @ evs, w'))
          \<and> react_runtime opts = Inr (VStr ''automatic'')
          \<and> (\<exists>c. get_prop opts ''config'' = Inr (VObj c))
          \<and> filter is_build evs = [BundlerBuild (VBundler b) opts]
          \<and> filter is_write evs = []
          \<and> filter is_report evs = [PrintFileSizesAfterBuild stats prev p]"
proof -
  have hk: "hooks api ''modifyEntry'' = []" "hooks api ''onBeforeCompiler'' = []"
    "hooks api ''modifyUniBundlerOpts'' = []" "hooks api ''modifyUniBundler'' = [h]"
    by (simp_all add: assms(2))
  obtain a1 b1 c1 d1 e1 f1 evs1 w1 where bo: "build_options env api (tr, w) =
            (Inr (opts_literal api a1 b1 c1 d1 e1 f1 (VBool True)), (tr @ evs1, w1))"
     and q1: "filter is_build evs1 = []" "filter is_write evs1 = []" "filter is_report evs1 = []"
    using build_options_ok [OF assms(1) hk(1) assms(4), of tr w] by blast
  let ?opts = "opts_literal api a1 b1 c1 d1 e1 f1 (VBool True)"
  let ?args = "VObj [(''bundler'', appData_bundler api), (''opts'', ?opts)]"
  obtain w2 where hb: "h [VUndefined, ?args] w1 = (Inr (VBundler b), w2)"
    using assms(3) by blast
  obtain stats w3 where bb: "bundler_build env b (call_value env api) ?opts w2 = (Inr stats, w3)"
    using reliableD(3) [OF assms(1)] by blast
  obtain out where out: "js_or (lookup ([(''outputPath'', js_or (userConfig_outputPath api) (VStr ''dist''))] @ config api) ''outputPath'') (VStr (DEFAULT_OUTPUT_PATH env)) = VStr out"
    using output_path [OF assms(7,8)] by blast
  let ?p = "path_resolve env (cwd api) out"
  obtain prev w4 where me: "measureFileSizesBeforeBuild env ?p w3 = (Inr prev, w4)"
    using reliableD(4) [OF assms(1)] by blast
  obtain w5 where pr: "printFileSizesAfterBuild env stats prev ?p w4 = (Inr (), w5)"
    using reliableD(5) [OF assms(1)] by blast
  have ms: "measure_sizes env api ?opts stats (tr', w3) =
     (Inr (), (tr' @ [MeasureFileSizesBeforeBuild ?p, ConsoleLog, LoggerInfo (''File sizes after gzip:'' @ [CHR 0x0A]),
        PrintFileSizesAfterBuild stats prev ?p], w5))" for tr'
    using assms(5,6) out me pr
    by (simp add: measure_sizes_def literal_props io_defs)
  have "build env api (tr, w) = (Inr (?opts, stats), (tr @ evs1 @
      [ApplyPlugins \<lparr>key = ''onBeforeCompiler'', mode = None, initialValue = VUndefined,
               args = VObj [(''compiler'', appData_bundler api), (''opts'', ?opts)]\<rparr>,
       ApplyPlugins \<lparr>key = ''modifyUniBundlerOpts'', mode = None, initialValue = ?opts,
               args = VObj [(''bundler'', appData_bundler api)]\<rparr>,
       ApplyPlugins \<lparr>key = ''modifyUniBundler'', mode = None, initialValue = VUndefined,
               args = ?args\<rparr>,
       BundlerBuild (VBundler b) ?opts,
       MeasureFileSizesBeforeBuild ?p, ConsoleLog, LoggerInfo (''File sizes after gzip:'' @ [CHR 0x0A]),
        PrintFileSizesAfterBuild stats prev ?p], w5))"
    using bo hk hb bb ms
    by (simp add: build_def bindM_def return_def lift_def call_def dispatch_def applyPlugins_def
          resolve_mode_def starts_with_def)
  then show ?thesis
    using q1 by (auto simp: runtime_literal literal_props)
qed

lemma html_ok:
  assumes "reliable env"
    and "hooks api ''modifyExportHTMLFiles'' = []"
    and "\<not> truthy (lookup (config api) ''vite'')" "\<not> truthy (lookup (config api) ''mpa'')"
    and "get_prop opts ''config'' = Inr (VObj c)"
  shows "\<exists>htmlFiles content evs w'.
            generate_html env api opts stats (tr, w) = (Inr htmlFiles, (tr @ evs, w'))
          \<and> filter is_build evs = []
          \<and> filter is_write evs =
               [WriteFileSync (path_resolve env (paths_absOutputPath api) ''index.html'') content]
          \<and> filter is_report evs = []"
proof -
  obtain m css js w1 where am: "getAssetsMap env stats (lookup (config api) ''publicPath'') w = (Inr m, w1)"
    "mapped m ''umi.css'' = Inr css" "mapped m ''umi.js'' = Inr js"
    using reliableD(6) [OF assms(1)] by blast
  obtain kvs styles w2 where ma: "getMarkupArgs env w1 = (Inr (VObj kvs), w2)"
    "lookup kvs ''styles'' = VArr styles"
    using reliableD(7) [OF assms(1)] by blast
  obtain final where fin: "finalMarkUpArgs api opts m (VObj kvs) = Inr final"
    using am(2,3) ma(2) assms(3,5)
    by (simp add: finalMarkUpArgs_def bind_pure_def assets_def)
  obtain content w3 where gm: "getMarkup env final w2 = (Inr content, w3)"
    using reliableD(8) [OF assms(1)] by blast
  let ?abs = "path_resolve env (paths_absOutputPath api) ''index.html''"
  obtain w4 where mk: "mkdirpSync env (path_dirname env ?abs) w3 = (Inr (), w4)"
    using reliableD(9) [OF assms(1)] by blast
  obtain w5 where wr: "writeFileSync env ?abs content w4 = (Inr (), w5)"
    using reliableD(10) [OF assms(1)] by blast
  show ?thesis
    using am(1) ma(1) fin gm mk wr assms(2,3,4)
    by (simp add: generate_html_def write_html_file_def io_defs applyPlugins_def resolve_mode_def
          starts_with_def lookup_def)
qed

text \<open>
  C3, as the code has it. For a configuration with no \<^verbatim>\<open>vite\<close>, \<^verbatim>\<open>mako\<close> or \<^verbatim>\<open>mpa\<close> flag
  and an output path that is a string where set, react version 17.1.0, reliable
  collaborators, and no handler under any key but one under \<^verbatim>\<open>modifyUniBundler\<close> that
  returns a backend: the run completes; the backend built is the one returned, with options
  whose react runtime is \<^verbatim>\<open>automatic\<close>; exactly one file is written,
  \<^verbatim>\<open>resolve(api.paths.absOutputPath, 'index.html')\<close>; and the file-size reporter is invoked
  exactly once.
\<close>

theorem end_to_end:
  assumes "reliable env"
    and "hooks api = (\<lambda>k. if k = ''modifyUniBundler'' then [h] else [])"
    and "\<And>argv w. \<exists>w'. h argv w = (Inr (VBundler b), w')"
    and "appData_react_version api = Some ''17.1.0''"
    and "\<not> truthy (lookup (config api) ''vite'')" "\<not> truthy (lookup (config api) ''mako'')"
    and "\<not> truthy (lookup (config api) ''mpa'')"
    and "optional_string (userConfig_outputPath api)"
    and "optional_string (lookup (config api) ''outputPath'')"
  shows "\<exists>s' opts content stats prev p.
           fn env api s = (Inr (), s')
         \<and> filter is_build (new_events s (Inr (), s')) = [BundlerBuild (VBundler b) opts]
         \<and> react_runtime opts = Inr (VStr ''automatic'')
         \<and> filter is_write (new_events s (Inr (), s')) =
             [WriteFileSync (path_resolve env (paths_absOutputPath api) ''index.html'') content]
         \<and> filter is_report (new_events s (Inr (), s')) = [PrintFileSizesAfterBuild stats prev p]"
proof -
  obtain tr w where s: "s = (tr, w)" by (cases s)
  have hk: "hooks api ''onCheckPkgJSON'' = []" "hooks api ''onGenerateFiles'' = []"
    "hooks api ''modifyExportHTMLFiles'' = []" "hooks api ''onBuildHtmlComplete'' = []"
    by (simp_all add: assms(2))
  have hb: "hooks api ''modifyEntry'' = [] \<and> hooks api ''onBeforeCompiler'' = []
       \<and> hooks api ''modifyUniBundlerOpts'' = [] \<and> hooks api ''modifyUniBundler'' = [h]"
    by (simp add: assms(2))
  obtain evs1 w1 where pc: "pre_check env api (tr, w) = (Inr VUndefined, (tr @ evs1, w1))"
    and q1: "filter is_build evs1 = []" "filter is_write evs1 = []" "filter is_report evs1 = []"
    using pre_check_ok [OF assms(1) hk(1)] by blast
  obtain evs2 where ge: "generate api [(''isFirstTime'', VBool True)] (tr @ evs1, w1) =
      (Inr VUndefined, ((tr @ evs1) @ evs2, w1))"
    and q2: "filter is_build evs2 = []" "filter is_write evs2 = []" "filter is_report evs2 = []"
    using generate_ok [OF hk(2)] by blast
  obtain opts stats evs3 w3 prev p c where bu: "build env api ((tr @ evs1) @ evs2, w1) =
      (Inr (opts, stats), (((tr @ evs1) @ evs2) @ evs3, w3))"
    and rt: "react_runtime opts = Inr (VStr ''automatic'')"
    and cf: "get_prop opts ''config'' = Inr (VObj c)"
    and q3: "filter is_build evs3 = [BundlerBuild (VBundler b) opts]" "filter is_write evs3 = []"
      "filter is_report evs3 = [PrintFileSizesAfterBuild stats prev p]"
    using build_ok [OF assms(1) hb assms(3,4,5,6,8,9)] by blast
  obtain htmlFiles content evs4 w4 where ht: "generate_html env api opts stats (((tr @ evs1) @ evs2) @ evs3, w3) =
      (Inr htmlFiles, ((((tr @ evs1) @ evs2) @ evs3) @ evs4, w4))"
    and q4: "filter is_build evs4 = []"
      "filter is_write evs4 = [WriteFileSync (path_resolve env (paths_absOutputPath api) ''index.html'') content]"
      "filter is_report evs4 = []"
    using html_ok [OF assms(1) hk(3) assms(5,7) cf] by blast
  let ?done = "ApplyPlugins \<lparr>key = ''onBuildHtmlComplete'', mode = None, initialValue = VUndefined,
               args = VObj (own_props opts @ [(''htmlFiles'', htmlFiles)])\<rparr>"
  have "fn env api s = (Inr (), (tr @ evs1 @ evs2 @ evs3 @ evs4 @ [?done], w4))"
    using pc ge bu ht hk(4) unfolding s
    by (simp add: fn_def bindM_def return_def lift_def call_def dispatch_def applyPlugins_def
          resolve_mode_def starts_with_def)
  then show ?thesis
    using q1 q2 q3 q4 rt unfolding s
    by (simp add: new_events_def)
qed


theorem end_to_end_witness:
  "\<exists>s' opts content stats prev p.
      fn demo_env webpack_api ([], []) = (Inr (), s')
    \<and> filter is_build (new_events ([], []) (Inr (), s')) = [BundlerBuild (VBundler ''webpack'') opts]
    \<and> react_runtime opts = Inr (VStr ''automatic'')
    \<and> filter is_write (new_events ([], []) (Inr (), s')) =
         [WriteFileSync ''/app/dist/index.html'' content]
    \<and> filter is_report (new_events ([], []) (Inr (), s')) = [PrintFileSizesAfterBuild stats prev p]"
proof -
  have "\<exists>s' opts content stats prev p.
      fn demo_env webpack_api ([], []) = (Inr (), s')
    \<and> filter is_build (new_events ([], []) (Inr (), s')) = [BundlerBuild (VBundler ''webpack'') opts]
    \<and> react_runtime opts = Inr (VStr ''automatic'')
    \<and> filter is_write (new_events ([], []) (Inr (), s')) =
         [WriteFileSync (path_resolve demo_env (paths_absOutputPath webpack_api) ''index.html'') content]
    \<and> filter is_report (new_events ([], []) (Inr (), s')) = [PrintFileSizesAfterBuild stats prev p]"
    by (rule end_to_end [OF reliable_demo, where api = webpack_api
            and h = "\<lambda>argv. return (VBundler ''webpack'')" and b = "''webpack''"])
       (simp_all add: demo_defs lookup_def return_def lift_def)
  moreover have "path_resolve demo_env (paths_absOutputPath webpack_api) ''index.html'' = ''/app/dist/index.html''"
    by (simp add: demo_defs)
  ultimately show ?thesis by simp
qed

text \<open>
  The claim as written fails: with no handler under any key, the \<^verbatim>\<open>modifyUniBundler\<close>
  dispatch (which has no initial value) returns \<^verbatim>\<open>undefined\<close>, \<^verbatim>\<open>bundler.build\<close> is a
  TypeError, no file is written and the reporter is not invoked.
\<close>

theorem end_to_end_counterexample:
  "fst (fn demo_env demo_api ([], [])) = Inl (TypeError ''Cannot read properties of undefined: build'')
   \<and> map label (new_events ([], []) (fn demo_env demo_api ([], []))) =
       [''logger.info'', ''rimraf.sync'', ''applyPlugins onCheckPkgJSON'',
        ''applyPlugins onGenerateFiles'', ''getBabelOpts'', ''applyPlugins modifyEntry'',
        ''applyPlugins onBeforeCompiler'', ''applyPlugins modifyUniBundlerOpts'',
        ''applyPlugins modifyUniBundler'', ''bundler.build'']
   \<and> filter is_write (new_events ([], []) (fn demo_env demo_api ([], []))) = []
   \<and> filter is_report (new_events ([], []) (fn demo_env demo_api ([], []))) = []"
  by (simp add: eval_defs demo_defs)

subsection \<open>Failures\<close>

lemma fails_bind_left:
  assumes "fails_emitting P m"
  shows "fails_emitting P (bindM m f)"
  using assms unfolding fails_emitting_def bindM_def
  by (metis (mono_tags, lifting) case_prod_conv sum.simps(5))

lemma fails_bind_right:
  assumes "emits P m" and "\<And>x. fails_emitting P (f x)"
  shows "fails_emitting P (bindM m f)"
  unfolding fails_emitting_def
proof
  fix s
  obtain r s1 where ms: "m s = (r, s1)" by (cases "m s")
  obtain evs1 where e1: "fst s1 = fst s @ evs1" "list_all P evs1"
    using emitsE [OF assms(1), of s] ms by (metis snd_conv)
  show "\<exists>e evs w'. bindM m f s = (Inl e, (fst s @ evs, w')) \<and> list_all P evs"
  proof (cases r)
    case (Inl e)
    then have "bindM m f s = (Inl e, (fst s @ evs1, snd s1))"
      using ms e1 by (simp add: bindM_def) (metis prod.collapse)
    then show ?thesis using e1 by blast
  next
    case (Inr x)
    obtain e evs2 w' where e2: "f x s1 = (Inl e, (fst s1 @ evs2, w'))" "list_all P evs2"
      using assms(2) [of x] unfolding fails_emitting_def by blast
    have "bindM m f s = (Inl e, (fst s @ (evs1 @ evs2), w'))"
      using Inr ms e1 e2 by (simp add: bindM_def)
    then show ?thesis using e1 e2 by (metis list_all_append)
  qed
qed

lemma fails_dispatch:
  assumes "hooks api (key hi) = h # hs" and "\<And>argv w. isl (fst (h argv w))"
    and "resolve_mode hi = Some MODIFY" and "P (ApplyPlugins hi)"
  shows "fails_emitting P (dispatch api hi)"
  unfolding fails_emitting_def
proof
  fix s :: "'a run"
  obtain tr w where s: "s = (tr, w)" by (cases s)
  obtain e w' where "h [initialValue hi, args hi] w = (Inl e, w')"
    using assms(2) [of "[initialValue hi, args hi]" w]
    by (cases "h [initialValue hi, args hi] w") (auto simp: isl_def)
  then have "dispatch api hi s = (Inl e, (fst s @ [ApplyPlugins hi], w'))"
    using assms(1,3) unfolding s
    by (simp add: dispatch_def call_def applyPlugins_def bindM_def)
  moreover have "list_all P [ApplyPlugins hi]"
    using assms(4) by simp
  ultimately show "\<exists>e evs w'. dispatch api hi s = (Inl e, (fst s @ evs, w')) \<and> list_all P evs"
    by blast
qed

lemma fails_export:
  assumes "hooks api ''modifyExportHTMLFiles'' = h # hs" and "\<And>argv w. isl (fst (h argv w))"
    and "P (ApplyPlugins \<lparr>key = ''modifyExportHTMLFiles'', mode = None, initialValue = iv, args = a\<rparr>)"
  shows "fails_emitting P
    (bindM (dispatch api \<lparr>key = ''modifyExportHTMLFiles'', mode = None, initialValue = iv, args = a\<rparr>) f)"
  by (rule fails_bind_left, rule fails_dispatch [OF _ assms(2)])
     (simp_all add: assms(1,3) resolve_mode_def starts_with_def)

lemma fails_case_prod:
  "(\<And>a b. fails_emitting P (f a b)) \<Longrightarrow> fails_emitting P (case x of (a, b) \<Rightarrow> f a b)"
  by (cases x) simp

lemma html_fails:
  assumes "hooks api ''modifyExportHTMLFiles'' = h # hs" and "\<And>argv w. isl (fst (h argv w))"
    and "\<not> truthy (lookup (config api) ''mpa'')"
  shows "fails_emitting (\<lambda>e. \<not> is_write e \<and> \<not> is_mkdirp e \<and> \<not> is_dispatch ''onBuildHtmlComplete'' e)
           (generate_html env api opts stats)"
proof -
  let ?P = "\<lambda>e. \<not> is_write e \<and> \<not> is_mkdirp e \<and> \<not> is_dispatch ''onBuildHtmlComplete'' e"
  have step: "fails_emitting ?P (bindM m f)" if "emits ?P m" "\<And>x. fails_emitting ?P (f x)"
    for m :: "('a run, val) io" and f :: "val \<Rightarrow> ('a run, val) io"
    using that by (rule fails_bind_right)
  show ?thesis
    unfolding generate_html_def using assms(3)
    apply (simp only: if_True not_False_eq_True)
    apply (rule step, (intro emits_intros; simp))
    apply (rule step, (intro emits_intros; simp))
    apply (rule step, (intro emits_intros; simp))
    apply (rule step, (intro emits_intros; simp))
    apply (rule fails_export [OF assms(1,2)])
    apply simp
    done
qed

lemma export_fails:
  assumes "hooks api ''modifyExportHTMLFiles'' = h # hs" and "\<And>argv w. isl (fst (h argv w))"
    and "\<not> truthy (lookup (config api) ''mpa'')"
  shows "fails_emitting (\<lambda>e. \<not> is_write e \<and> \<not> is_mkdirp e \<and> \<not> is_dispatch ''onBuildHtmlComplete'' e)
           (fn env api)"
  unfolding fn_def
  apply (rule fails_bind_right)
   apply (unfold pre_check_def, (intro emits_intros; simp))
  apply (rule fails_bind_right)
   apply (unfold generate_def, (intro emits_intros; simp))
  apply (rule fails_bind_right)
   apply (unfold build_def build_options_def measure_sizes_def, (intro emits_intros; simp))
  apply (rule fails_case_prod)
  apply (rule fails_bind_left)
  apply (rule html_fails [OF assms])
  done

text \<open>
  C8. A run stops at its first failure. In every run the calls logged are the calls made,
  in order, each on the world the one before has left, and all but the last have returned
  normally; a run that fails returns the error of its last call and leaves the world that
  call has left (or, when every call has returned normally, a TypeError of one of its own
  expressions): the error is not caught or replaced, no call is made again or after it, and
  nothing done before is undone. So a call that fails is the last call of the run, its
  error the run's and its world the run's. When that call is the
  \<^verbatim>\<open>modifyExportHTMLFiles\<close> dispatch, no directory has been created, no file written and
  \<^verbatim>\<open>onBuildHtmlComplete\<close> not dispatched. And when a handler under
  \<^verbatim>\<open>modifyExportHTMLFiles\<close> throws whenever called, not in multi-page mode, the run fails,
  creates no directory, writes no file and does not dispatch \<^verbatim>\<open>onBuildHtmlComplete\<close>.
\<close>

theorem fail_fast:
  "stops_at_failure env api (fn env api)
   \<and> (fn env api (tr, w) = (r, (tr @ pre @ ev # post, w'))
        \<and> replay env api pre w = Some w1 \<and> perform env api ev w1 = (Inl e, w2)
      \<longrightarrow> r = Inl e \<and> w' = w2 \<and> post = [])
   \<and> (fn env api (tr, w) = (r, (tr @ pre @ ApplyPlugins hi # post, w'))
        \<and> key hi = ''modifyExportHTMLFiles''
        \<and> replay env api pre w = Some w1 \<and> applyPlugins (hooks api) hi w1 = (Inl e, w2)
      \<longrightarrow> r = Inl e \<and> w' = w2 \<and> post = []
          \<and> filter is_mkdirp pre = [] \<and> filter is_write pre = []
          \<and> filter (is_dispatch ''onBuildHtmlComplete'') pre = [])
   \<and> (hooks api ''modifyExportHTMLFiles'' = h # hs \<and> (\<forall>argv w. isl (fst (h argv w)))
        \<and> \<not> truthy (lookup (config api) ''mpa'')
      \<longrightarrow> isl (fst (fn env api s))
          \<and> filter is_mkdirp (new_events s (fn env api s)) = []
          \<and> filter is_write (new_events s (fn env api s)) = []
          \<and> filter (is_dispatch ''onBuildHtmlComplete'') (new_events s (fn env api s)) = [])"
proof -
  have last: "r = Inl e \<and> w' = w2 \<and> post = []"
    if "fn env api (tr, w) = (r, (tr @ pre @ ev # post, w'))"
      "replay env api pre w = Some w1" "perform env api ev w1 = (Inl e, w2)" for ev pre post
    using failure_is_last [OF stops_fn that] .
  have export: "r = Inl e \<and> w' = w2 \<and> post = []
          \<and> filter is_mkdirp pre = [] \<and> filter is_write pre = []
          \<and> filter (is_dispatch ''onBuildHtmlComplete'') pre = []"
    if run: "fn env api (tr, w) = (r, (tr @ pre @ ApplyPlugins hi # post, w'))"
      and k: "key hi = ''modifyExportHTMLFiles''"
      and rp: "replay env api pre w = Some w1"
      and ap: "applyPlugins (hooks api) hi w1 = (Inl e, w2)"
  proof -
    have "perform env api (ApplyPlugins hi) w1 = (Inl e, w2)"
      using ap by (simp add: discard_def)
    then have l: "r = Inl e \<and> w' = w2 \<and> post = []"
      using last [OF run rp] by blast
    then have run': "fn env api (tr, w) = (r, (tr @ pre @ [ApplyPlugins hi], w'))"
      using run by simp
    have "list_all (\<lambda>e. \<not> is_mkdirp e \<and> \<not> is_write e \<and> \<not> is_dispatch ''onBuildHtmlComplete'' e
                       \<and> \<not> is_dispatch ''modifyExportHTMLFiles'' e) pre"
      by (rule gate_last [OF gate_fn run' k])
    then show ?thesis
      using l by (auto simp: list_all_iff filter_empty_conv)
  qed
  have whole: "isl (fst (fn env api s))
         \<and> filter is_mkdirp (new_events s (fn env api s)) = []
         \<and> filter is_write (new_events s (fn env api s)) = []
         \<and> filter (is_dispatch ''onBuildHtmlComplete'') (new_events s (fn env api s)) = []"
    if "hooks api ''modifyExportHTMLFiles'' = h # hs" "\<forall>argv w. isl (fst (h argv w))"
       "\<not> truthy (lookup (config api) ''mpa'')"
  proof -
    have "fails_emitting (\<lambda>e. \<not> is_write e \<and> \<not> is_mkdirp e \<and> \<not> is_dispatch ''onBuildHtmlComplete'' e)
           (fn env api)"
      using that by (intro export_fails) auto
    then obtain e evs w' where "fn env api s = (Inl e, (fst s @ evs, w'))"
      "list_all (\<lambda>e. \<not> is_write e \<and> \<not> is_mkdirp e \<and> \<not> is_dispatch ''onBuildHtmlComplete'' e) evs"
      unfolding fails_emitting_def by blast
    then show ?thesis
      by (auto simp: new_events_def list_all_iff filter_empty_conv)
  qed
  show ?thesis
    apply (intro conjI)
    subgoal by (rule stops_fn)
    subgoal using last by blast
    subgoal using export by blast
    subgoal using whole by blast
    done
qed


theorem fail_fast_witness:
  "fst (fn demo_env (failing_api ''onGenerateFiles'') ([], [])) =
     Inl (Thrown (VStr ''thrown in onGenerateFiles''))
   \<and> map label (new_events ([], []) (fn demo_env (failing_api ''onGenerateFiles'') ([], []))) =
     [''logger.info'', ''rimraf.sync'', ''applyPlugins onCheckPkgJSON'', ''applyPlugins onGenerateFiles'']
   \<and> fst (fn full_disk_env webpack_api ([], [])) = Inl (Thrown (VStr ''ENOSPC''))
   \<and> snd (snd (fn full_disk_env webpack_api ([], []))) = [(''/app/dist/umi.js'', VStr ''bundle'')]
   \<and> map label (new_events ([], []) (fn full_disk_env webpack_api ([], []))) =
       [''logger.info'', ''rimraf.sync'', ''applyPlugins onCheckPkgJSON'',
        ''applyPlugins onGenerateFiles'', ''getBabelOpts'', ''applyPlugins modifyEntry'',
        ''applyPlugins onBeforeCompiler'', ''applyPlugins modifyUniBundlerOpts'',
        ''applyPlugins modifyUniBundler'', ''bundler.build'', ''measureFileSizesBeforeBuild'',
        ''console.log'', ''logger.info'', ''printFileSizesAfterBuild'', ''getAssetsMap'',
        ''getMarkupArgs'', ''getMarkup'', ''applyPlugins modifyExportHTMLFiles'', ''mkdirpSync'',
        ''writeFileSync'']
   \<and> fst (fn demo_env (failing_api ''modifyExportHTMLFiles'') ([], [])) =
     Inl (Thrown (VStr ''thrown in modifyExportHTMLFiles''))
   \<and> snd (snd (fn demo_env (failing_api ''modifyExportHTMLFiles'') ([], []))) =
     [(''/app/dist/umi.js'', VStr ''bundle'')]
   \<and> filter is_mkdirp (new_events ([], []) (fn demo_env (failing_api ''modifyExportHTMLFiles'') ([], []))) = []
   \<and> filter is_write (new_events ([], []) (fn demo_env (failing_api ''modifyExportHTMLFiles'') ([], []))) = []
   \<and> filter (is_dispatch ''onBuildHtmlComplete'')
       (new_events ([], []) (fn demo_env (failing_api ''modifyExportHTMLFiles'') ([], []))) = []
   \<and> fst (fn demo_env (failing_api ''onBuildHtmlComplete'') ([], [])) =
     Inl (Thrown (VStr ''thrown in onBuildHtmlComplete''))
   \<and> snd (snd (fn demo_env (failing_api ''onBuildHtmlComplete'') ([], []))) =
     [(''/app/dist/umi.js'', VStr ''bundle''), (''/app/dist/index.html'', VStr ''<html>'')]"
proof -
  let ?export = "failing_api ''modifyExportHTMLFiles''"
  let ?disk = "[(''/app/dist/umi.js'', VStr ''bundle'')] :: disk"
  let ?failed = "WriteFileSync ''/app/dist/index.html'' (VStr ''<html>'')"
  have first: "fst (fn demo_env (failing_api ''onGenerateFiles'') ([], [])) =
     Inl (Thrown (VStr ''thrown in onGenerateFiles''))
   \<and> map label (new_events ([], []) (fn demo_env (failing_api ''onGenerateFiles'') ([], []))) =
     [''logger.info'', ''rimraf.sync'', ''applyPlugins onCheckPkgJSON'', ''applyPlugins onGenerateFiles'']"
    by (simp add: eval_defs demo_defs)
  define evs where "evs = fst (snd (fn full_disk_env webpack_api ([], [])))"
  have sp: "evs = butlast evs @ [?failed]"
    unfolding evs_def by (simp add: eval_defs demo_defs full_disk_env_def)
  have rp: "replay full_disk_env webpack_api (butlast evs) [] = Some ?disk"
    unfolding evs_def by (simp add: eval_defs demo_defs full_disk_env_def discard_def)
  have pf: "perform full_disk_env webpack_api ?failed ?disk = (Inl (Thrown (VStr ''ENOSPC'')), ?disk)"
    by (simp add: full_disk_env_def demo_env_def lift_def)
  obtain r w' where run: "fn full_disk_env webpack_api ([], []) = (r, (evs, w'))"
    unfolding evs_def by (cases "fn full_disk_env webpack_api ([], [])") auto
  have run': "fn full_disk_env webpack_api ([], []) = (r, ([] @ butlast evs @ ?failed # [], w'))"
    using run by (simp add: sp [symmetric])
  have "r = Inl (Thrown (VStr ''ENOSPC'')) \<and> w' = ?disk"
    using fail_fast [where env = full_disk_env and api = webpack_api and tr = "[]" and w = "[]"
        and r = r and pre = "butlast evs" and ev = ?failed and post = "[]" and w' = w'
        and ?w1.0 = ?disk and e = "Thrown (VStr ''ENOSPC'')" and ?w2.0 = ?disk,
        THEN conjunct2, THEN conjunct1] run' rp pf
    by blast
  then have second: "fst (fn full_disk_env webpack_api ([], [])) = Inl (Thrown (VStr ''ENOSPC''))
   \<and> snd (snd (fn full_disk_env webpack_api ([], []))) = ?disk"
    using run by simp
  have labels: "map label (new_events ([], []) (fn full_disk_env webpack_api ([], []))) =
       [''logger.info'', ''rimraf.sync'', ''applyPlugins onCheckPkgJSON'',
        ''applyPlugins onGenerateFiles'', ''getBabelOpts'', ''applyPlugins modifyEntry'',
        ''applyPlugins onBeforeCompiler'', ''applyPlugins modifyUniBundlerOpts'',
        ''applyPlugins modifyUniBundler'', ''bundler.build'', ''measureFileSizesBeforeBuild'',
        ''console.log'', ''logger.info'', ''printFileSizesAfterBuild'', ''getAssetsMap'',
        ''getMarkupArgs'', ''getMarkup'', ''applyPlugins modifyExportHTMLFiles'', ''mkdirpSync'',
        ''writeFileSync'']"
    by (simp add: eval_defs demo_defs full_disk_env_def)
  have hk: "hooks ?export ''modifyExportHTMLFiles'' = [throwing ''thrown in modifyExportHTMLFiles'']"
    and th: "\<forall>argv w. isl (fst (throwing ''thrown in modifyExportHTMLFiles'' argv w))"
    and mpa: "\<not> truthy (lookup (config ?export) ''mpa'')"
    by (simp_all add: demo_defs lookup_def lift_def)
  have third: "isl (fst (fn demo_env ?export ([], [])))
     \<and> filter is_mkdirp (new_events ([], []) (fn demo_env ?export ([], []))) = []
     \<and> filter is_write (new_events ([], []) (fn demo_env ?export ([], []))) = []
     \<and> filter (is_dispatch ''onBuildHtmlComplete'') (new_events ([], []) (fn demo_env ?export ([], []))) = []"
    using fail_fast [where env = demo_env and api = ?export and s = "([], [])",
        THEN conjunct2, THEN conjunct2, THEN conjunct2] hk th mpa
    by blast
  let ?margs = "VObj [(''styles'', VArr [VStr ''b.css'']), (''scripts'', VArr [VStr ''b.js'']),
           (''styles'', VArr [VStr ''b.css'', VObj [(''src'', VStr ''/umi.css'')]]),
           (''scripts'', VArr [VObj [(''src'', VStr ''/umi.js'')], VStr ''b.js'']),
           (''esmScript'', VUndefined), (''path'', VStr ''/'')]"
  let ?hi = "\<lparr>key = ''modifyExportHTMLFiles'', mode = None,
          initialValue = VArr [VObj [(''path'', VStr ''index.html''), (''content'', VStr ''<html>'')]],
          args = VObj [(''markupArgs'', ?margs), (''getMarkup'', VClosure GetMarkup)]\<rparr>"
  define evx where "evx = fst (snd (fn demo_env ?export ([], [])))"
  have spx: "evx = butlast evx @ [ApplyPlugins ?hi]"
    unfolding evx_def by (simp add: eval_defs demo_defs)
  have rpx: "replay demo_env ?export (butlast evx) [] = Some ?disk"
    unfolding evx_def by (simp add: eval_defs demo_defs discard_def)
  have apx: "applyPlugins (hooks ?export) ?hi ?disk =
      (Inl (Thrown (VStr ''thrown in modifyExportHTMLFiles'')), ?disk)"
    by (simp add: eval_defs demo_defs)
  obtain rx wx where runx: "fn demo_env ?export ([], []) = (rx, (evx, wx))"
    unfolding evx_def by (cases "fn demo_env ?export ([], [])") auto
  have runx': "fn demo_env ?export ([], []) = (rx, ([] @ butlast evx @ ApplyPlugins ?hi # [], wx))"
    using runx by (simp add: spx [symmetric])
  have "rx = Inl (Thrown (VStr ''thrown in modifyExportHTMLFiles'')) \<and> wx = ?disk"
    using fail_fast [where env = demo_env and api = ?export and tr = "[]" and w = "[]"
        and r = rx and pre = "butlast evx" and hi = ?hi and post = "[]" and w' = wx
        and ?w1.0 = ?disk and e = "Thrown (VStr ''thrown in modifyExportHTMLFiles'')"
        and ?w2.0 = ?disk,
        THEN conjunct2, THEN conjunct2, THEN conjunct1] runx' rpx apx
    by simp
  then have thrown: "fst (fn demo_env ?export ([], [])) = Inl (Thrown (VStr ''thrown in modifyExportHTMLFiles''))
      \<and> snd (snd (fn demo_env ?export ([], []))) = ?disk"
    using runx by simp
  have fourth: "fst (fn demo_env (failing_api ''onBuildHtmlComplete'') ([], [])) =
     Inl (Thrown (VStr ''thrown in onBuildHtmlComplete''))
   \<and> snd (snd (fn demo_env (failing_api ''onBuildHtmlComplete'') ([], []))) =
     [(''/app/dist/umi.js'', VStr ''bundle''), (''/app/dist/index.html'', VStr ''<html>'')]"
    by (simp add: eval_defs demo_defs)
  show ?thesis using first second labels third thrown fourth by simp
qed

end
